theory Spec2Isabelle
  imports Main "HOL-Library.Sublist"
begin

section \<open>JavaScript values used by the crawler\<close>

text \<open>
  A JavaScript string is modelled as a \<^typ>\<open>string\<close>, one element per code unit; the
  literals of the sources are ASCII. Numbers that hold millisecond timestamps are integers
  (\<open>Date.now()\<close> is integral and far below 2^53), modelled as \<^typ>\<open>int\<close>.
\<close>

definition digit_char :: "nat \<Rightarrow> char" where
  "digit_char d = char_of (48 + d)"

definition is_digit :: "char \<Rightarrow> bool" where
  "is_digit c = (48 \<le> (of_char c :: nat) \<and> (of_char c :: nat) \<le> 57)"

definition digit_val :: "char \<Rightarrow> nat" where
  "digit_val c = of_char c - 48"

text \<open>\<open>\s\<close> of a regular expression and the white space of \<open>trim\<close> and \<open>parseInt\<close>, on the
  code units below 256: tab, line feed, vertical tab, form feed, carriage return, space and
  the no-break space.\<close>

definition is_space :: "char \<Rightarrow> bool" where
  "is_space c = ((of_char c :: nat) \<in> {9, 10, 11, 12, 13, 32, 160})"

text \<open>\<open>Number.prototype.toString()\<close> on an integer: its decimal digits, with a minus sign
  when negative.\<close>

fun digits :: "nat \<Rightarrow> string" where
  "digits n = (if n < 10 then [digit_char n] else digits (n div 10) @ [digit_char (n mod 10)])"

declare digits.simps [simp del]

definition toString :: "int \<Rightarrow> string" where
  "toString n = (if n < 0 then CHR ''-'' # digits (nat (- n)) else digits (nat n))"

text \<open>\<open>parseInt(s, 10)\<close>: leading white space is skipped, one sign is read, then the
  longest run of decimal digits; \<open>None\<close> is \<open>NaN\<close> (no digit there).\<close>

definition digits_value :: "string \<Rightarrow> nat" where
  "digits_value ds = foldl (\<lambda>acc c. acc * 10 + digit_val c) 0 ds"

definition parseInt :: "string \<Rightarrow> int option" where
  "parseInt s =
     (let t = dropWhile is_space s;
          neg = (t \<noteq> [] \<and> hd t = CHR ''-'');
          u = (if t \<noteq> [] \<and> (hd t = CHR ''-'' \<or> hd t = CHR ''+'') then tl t else t);
          ds = takeWhile is_digit u
      in if ds = [] then None
         else Some (if neg then - int (digits_value ds) else int (digits_value ds)))"

text \<open>\<open>xs.join(sep)\<close>.\<close>

fun join :: "string \<Rightarrow> string list \<Rightarrow> string" where
  "join sep [] = []"
| "join sep [x] = x"
| "join sep (x # y # ys) = x @ sep @ join sep (y # ys)"

section \<open>JSON values\<close>

text \<open>
  A parsed JSON text. The numbers are the integers a double holds exactly (below \<open>2^53\<close>
  in absolute value); those print in decimal, and their differences compare as the
  integers do. An object is the list of its properties, each key once.
\<close>

datatype json =
  JNull
| JBool bool
| JNum int
| JStr string
| JArr "json list"
| JObj "(string \<times> json) list"

datatype js_error =
  ReadFailure string
| SyntaxError string
| TypeError
| InvalidIndex string
| MissingId
| DuplicateId json
| SearchError string
| BrowserError string

text \<open>\<open>v[k]\<close> for the property names the routes read (\<open>id\<close>, \<open>fields\<close>, \<open>documents\<close>)
  and for the names of indexed fields: reading a property of \<open>null\<close> throws, a value that
  is not an object has none of them (\<open>Inr None\<close> is \<open>undefined\<close>).\<close>

fun get_prop :: "json \<Rightarrow> string \<Rightarrow> js_error + json option" where
  "get_prop JNull k = Inl TypeError"
| "get_prop (JObj kvs) k = Inr (map_of kvs k)"
| "get_prop v k = Inr None"

fun truthy :: "json option \<Rightarrow> bool" where
  "truthy None = False"
| "truthy (Some JNull) = False"
| "truthy (Some (JBool b)) = b"
| "truthy (Some (JNum n)) = (n \<noteq> 0)"
| "truthy (Some (JStr s)) = (s \<noteq> [])"
| "truthy (Some (JArr xs)) = True"
| "truthy (Some (JObj kvs)) = True"

fun isArray :: "json option \<Rightarrow> bool" where
  "isArray (Some (JArr xs)) = True"
| "isArray v = False"

text \<open>
  The conversion of a value to a string (\<open>v.toString()\<close>, and the conversion
  \<open>parseInt\<close> and a property key apply): \<open>None\<close> when it throws. An array joins its
  elements with commas, \<open>null\<close> elements as the empty string; an object parsed from JSON
  gives \<open>[object Object]\<close> unless it has a property \<open>toString\<close> of its own, which JSON
  cannot make a function, and then the conversion throws.
\<close>

definition join_elements :: "string option list \<Rightarrow> string option" where
  "join_elements ss =
     (if list_ex (\<lambda>s. s = None) ss then None
      else Some (join '','' (map (\<lambda>s. case s of None \<Rightarrow> [] | Some t \<Rightarrow> t) ss)))"

fun to_string :: "json \<Rightarrow> string option" where
  "to_string JNull = Some ''null''"
| "to_string (JBool b) = Some (if b then ''true'' else ''false'')"
| "to_string (JNum n) = Some (toString n)"
| "to_string (JStr s) = Some s"
| "to_string (JArr xs) =
     join_elements (map (\<lambda>x. if x = JNull then Some [] else to_string x) xs)"
| "to_string (JObj kvs) =
     (if ''toString'' \<in> fst ` set kvs then None else Some ''[object Object]'')"

section \<open>The Redis adapter (src/latest/redis.js)\<close>

text \<open>
  The three keys of the store: the set \<open>urls:to_crawl\<close> (a list without repetition, in
  the order \<open>SMEMBERS\<close> replies), the hash \<open>urls:visited\<close> and the string keys
  \<open>index:<id>\<close>. The client parses every reply as JSON and hands back the parsed value,
  or the stored text itself when the text is not JSON; the hash is kept as the values
  \<open>hget\<close> hands back (a stored \<open>1700000000000\<close> is the number, a stored \<open>x\<close> the string),
  and the stored JSON text of a document as the document itself. The commands are taken to
  succeed unless said otherwise; \<open>console_log\<close> keeps the lines \<open>saveToSearchIndex\<close>
  prints.
\<close>

record crawl_document =
  doc_id :: nat
  doc_title :: string
  doc_content :: string
  doc_url :: string
  doc_timestamp :: int

datatype log_line = Updating string | AddingNew string

record redis =
  to_crawl :: "string list"
  visited :: "string \<rightharpoonup> json"
  index :: "string \<rightharpoonup> crawl_document"
  console_log :: "log_line list"

text \<open>\<open>SADD\<close> adds the members that are not in the set yet.\<close>

definition sadd :: "string list \<Rightarrow> string list \<Rightarrow> string list" where
  "sadd members urls = foldl (\<lambda>ms u. if u \<in> set ms then ms else ms @ [u]) members urls"

definition addUrlsToCrawl :: "string list \<Rightarrow> redis \<Rightarrow> redis" where
  "addUrlsToCrawl urls r = r\<lparr>to_crawl := sadd (to_crawl r) urls\<rparr>"


text \<open>
  The client's \<open>hset(key, kv)\<close> takes the field-value pairs as one object and sends
  \<open>Object.entries(kv)\<close>. \<open>markUrlVisited\<close> calls it as
  \<open>hset('urls:visited', url, timestamp.toString())\<close>: \<open>kv\<close> is the string \<open>url\<close>, whose
  entries are its code units under the fields \<open>0\<close>, \<open>1\<close>, ..., and the third argument is
  not read. A code unit that is a digit is handed back by \<open>hget\<close> as a number. With no
  pair to send (the empty string) the command is refused.
\<close>

definition char_reply :: "char \<Rightarrow> json" where
  "char_reply c = (if is_digit c then JNum (int (digit_val c)) else JStr [c])"

definition hset_entries :: "string \<Rightarrow> (string \<times> json) list" where
  "hset_entries kv = map (\<lambda>(i, c). (toString (int i), char_reply c)) (enumerate 0 kv)"

definition hset :: "(string \<rightharpoonup> json) \<Rightarrow> string \<Rightarrow> string + (string \<rightharpoonup> json)" where
  "hset hash kv =
     (if kv = [] then Inl ''ERR wrong number of arguments for hset command''
      else Inr (foldl (\<lambda>h (field, v). h(field \<mapsto> v)) hash (hset_entries kv)))"

definition markUrlVisited :: "string \<Rightarrow> int \<Rightarrow> redis \<Rightarrow> string + redis" where
  "markUrlVisited url now r =
     (case hset (visited r) url of
        Inl message \<Rightarrow> Inl message
      | Inr hash \<Rightarrow> Inr (r\<lparr>visited := hash\<rparr>))"

definition sixHours :: int where
  "sixHours = 6 * 60 * 60 * 1000"

text \<open>\<open>canCrawlUrl(url)\<close> at the time \<open>now\<close>. \<open>!timestamp\<close> holds for a missing field
  (\<open>null\<close>) and for the values \<open>null\<close>, \<open>false\<close>, \<open>0\<close> and the empty string; \<open>parseInt\<close>
  converts its argument to a string first, which can throw; a comparison with \<open>NaN\<close> is
  false.\<close>

definition canCrawlUrl :: "string \<Rightarrow> int \<Rightarrow> redis \<Rightarrow> js_error + bool" where
  "canCrawlUrl url now r =
     (let timestamp = visited r url in
      if \<not> truthy timestamp then Inr True
      else (case timestamp of
              None \<Rightarrow> Inr True
            | Some v \<Rightarrow>
                (case to_string v of
                   None \<Rightarrow> Inl TypeError
                 | Some text \<Rightarrow>
                     (case parseInt text of
                        None \<Rightarrow> Inr False
                      | Some lastVisited \<Rightarrow> Inr (now - lastVisited > sixHours)))))"

text \<open>\<open>saveToSearchIndex(crawlId, document)\<close>; \<open>uuid\<close> is what \<open>uuidv4()\<close> returns in this
  call. Both branches issue the same \<open>set\<close>; they differ in the line they print.\<close>

definition saveToSearchIndex :: "string \<Rightarrow> crawl_document \<Rightarrow> redis \<Rightarrow> redis" where
  "saveToSearchIndex uuid document r =
     (let key = ''index:'' @ uuid in
      case index r key of
        Some existingDoc \<Rightarrow>
          r\<lparr>index := (index r)(key \<mapsto> document),
            console_log := console_log r @ [Updating uuid]\<rparr>
      | None \<Rightarrow>
          r\<lparr>index := (index r)(key \<mapsto> document),
            console_log := console_log r @ [AddingNew uuid]\<rparr>)"

text \<open>\<open>initializeUrls(mainUrl)\<close>: the key \<open>urls:to_crawl\<close> is a set in this model, so the
  repair of a key of another type does not arise.\<close>

definition initializeUrls :: "string \<Rightarrow> redis \<Rightarrow> redis" where
  "initializeUrls mainUrl r =
     (if mainUrl \<in> set (to_crawl r) then r else r\<lparr>to_crawl := sadd (to_crawl r) [mainUrl]\<rparr>)"

text \<open>A store with nothing in it, and a store whose hash holds a timestamp under a URL,
  for evaluating the operations at concrete inputs.\<close>

definition empty_redis :: redis where
  "empty_redis = \<lparr>to_crawl = [], visited = Map.empty, index = Map.empty, console_log = []\<rparr>"

definition seeded_redis :: redis where
  "seeded_redis =
     empty_redis\<lparr>visited := [''https://example.com/a'' \<mapsto> JNum 1700000000000]\<rparr>"

section \<open>Text and URL helpers\<close>

text \<open>\<open>s.trim()\<close> and \<open>s.replace(/\s+/g, ' ')\<close>.\<close>

definition trim :: "string \<Rightarrow> string" where
  "trim s = rev (dropWhile is_space (rev (dropWhile is_space s)))"

text \<open>Every maximal run of white space becomes one space; \<open>in_run\<close> says that the
  code unit before was white space.\<close>

fun collapse_from :: "bool \<Rightarrow> string \<Rightarrow> string" where
  "collapse_from in_run [] = []"
| "collapse_from in_run (c # cs) =
     (if is_space c
      then (if in_run then collapse_from True cs else CHR '' '' # collapse_from True cs)
      else c # collapse_from False cs)"

definition collapse_ws :: "string \<Rightarrow> string" where
  "collapse_ws s = collapse_from False s"

text \<open>
  \<open>new URL(href, base).href\<close> is the platform's URL parser. The functions of the routes
  take it as a parameter \<open>R\<close>: \<open>R href base = None\<close> when the constructor throws, and
  \<open>Some u\<close> with \<open>u\<close> the serialised absolute URL otherwise. \<open>URL_href\<close> below gives the
  parser's answers for \<open>http\<close> and \<open>https\<close> bases and the plain shapes of reference met
  in the examples (absolute with a scheme, scheme-relative, path-absolute, query-only,
  fragment-only, path-relative); it does no percent-encoding, case folding, removal of
  dot segments or of a default port, and does not strip leading or trailing spaces, so it
  is used only at references where none of these arises.
\<close>

definition is_alpha :: "char \<Rightarrow> bool" where
  "is_alpha c = ((65 \<le> (of_char c :: nat) \<and> (of_char c :: nat) \<le> 90) \<or>
                 (97 \<le> (of_char c :: nat) \<and> (of_char c :: nat) \<le> 122))"

definition is_scheme_char :: "char \<Rightarrow> bool" where
  "is_scheme_char c = (is_alpha c \<or> is_digit c \<or> c \<in> {CHR ''+'', CHR ''-'', CHR ''.''})"

text \<open>The scheme of a reference, with its colon, when it starts with one.\<close>

definition scheme_of :: "string \<Rightarrow> string option" where
  "scheme_of s =
     (let name = takeWhile is_scheme_char s; rest = dropWhile is_scheme_char s
      in if name \<noteq> [] \<and> is_alpha (hd name) \<and> rest \<noteq> [] \<and> hd rest = CHR '':''
         then Some (name @ '':'') else None)"

definition is_http :: "string \<Rightarrow> bool" where
  "is_http s = (prefix ''https://'' s \<or> prefix ''http://'' s)"

definition after_scheme :: "string \<Rightarrow> string" where
  "after_scheme s = drop 2 (tl (dropWhile is_scheme_char s))"

definition ends_host :: "char \<Rightarrow> bool" where
  "ends_host c = (c \<in> {CHR ''/'', CHR ''?'', CHR ''#''})"

text \<open>\<open>new URL(u).origin\<close> of an \<open>http\<close> or \<open>https\<close> URL: scheme, \<open>://\<close>, host and port.\<close>

definition origin_of :: "string \<Rightarrow> string" where
  "origin_of u =
     takeWhile is_scheme_char u @ ''://'' @ takeWhile (\<lambda>c. \<not> ends_host c) (after_scheme u)"

text \<open>An absolute \<open>http(s)\<close> URL as serialised: an empty path becomes \<open>/\<close>; no host is an
  invalid URL.\<close>

definition serialise_http :: "string \<Rightarrow> string option" where
  "serialise_http u =
     (let host = takeWhile (\<lambda>c. \<not> ends_host c) (after_scheme u);
          rest = dropWhile (\<lambda>c. \<not> ends_host c) (after_scheme u)
      in if host = [] then None
         else if rest \<noteq> [] \<and> hd rest = CHR ''/'' then Some u
         else Some (origin_of u @ ''/'' @ rest))"

definition path_dir :: "string \<Rightarrow> string" where
  "path_dir b =
     (let noq = takeWhile (\<lambda>c. c \<noteq> CHR ''?'' \<and> c \<noteq> CHR ''#'') b
      in rev (dropWhile (\<lambda>c. c \<noteq> CHR ''/'') (rev noq)))"

definition URL_href :: "string \<Rightarrow> string \<Rightarrow> string option" where
  "URL_href href base =
     (if is_http href then serialise_http href
      else if scheme_of href \<noteq> None then Some href
      else if \<not> is_http base then None
      else (case serialise_http base of
              None \<Rightarrow> None
            | Some b \<Rightarrow>
                if prefix ''//'' href then serialise_http (takeWhile is_scheme_char b @ '':'' @ href)
                else if prefix ''/'' href then Some (origin_of b @ href)
                else if prefix ''#'' href then Some (takeWhile (\<lambda>c. c \<noteq> CHR ''#'') b @ href)
                else if prefix ''?'' href
                  then Some (takeWhile (\<lambda>c. c \<noteq> CHR ''?'' \<and> c \<noteq> CHR ''#'') b @ href)
                else if href = [] then Some (takeWhile (\<lambda>c. c \<noteq> CHR ''#'') b)
                else Some (path_dir b @ href)))"

section \<open>The parsed page\<close>

text \<open>
  The tree cheerio builds from an HTML text: text nodes, and elements with their tag name
  (in lower case, as the parser gives it), their attributes and their children. A page is
  the list of the nodes at the top. \<open>.text()\<close> of an element is the text of all the text
  nodes below it, and \<open>$(selector)\<close> lists the matching elements in document order.
\<close>

datatype node =
  Text string
| Element string "(string \<times> string) list" "node list"

type_synonym dom = "node list"

text \<open>A node and everything below it, in document order.\<close>

fun subtree :: "node \<Rightarrow> node list" where
  "subtree (Text s) = [Text s]"
| "subtree (Element name attrs children) =
     Element name attrs children # concat (map subtree children)"

fun node_text :: "node \<Rightarrow> string" where
  "node_text (Text s) = s"
| "node_text (Element name attrs children) = []"

fun tag :: "node \<Rightarrow> string option" where
  "tag (Text s) = None"
| "tag (Element name attrs children) = Some name"

fun attr :: "node \<Rightarrow> string \<Rightarrow> string option" where
  "attr (Text s) k = None"
| "attr (Element name attrs children) k = map_of attrs k"

definition text_of :: "node \<Rightarrow> string" where
  "text_of n = concat (map node_text (subtree n))"

definition has_tag :: "string list \<Rightarrow> node \<Rightarrow> bool" where
  "has_tag names n = (case tag n of None \<Rightarrow> False | Some name \<Rightarrow> name \<in> set names)"

text \<open>\<open>$('t1, t2, ...')\<close> on the page, and the text of a selection.\<close>

definition select :: "string list \<Rightarrow> dom \<Rightarrow> node list" where
  "select names page = filter (has_tag names) (concat (map subtree page))"

definition selection_text :: "node list \<Rightarrow> string" where
  "selection_text ns = concat (map text_of ns)"

section \<open>The Redis crawl route (src/latest/crawl.js)\<close>

text \<open>
  What the route reads from the rendered page (lines 97 to 102 and 118 to 120): the text
  of \<open>title\<close>; the text of the elements below \<open>body\<close> that are a \<open>main\<close>, an \<open>article\<close>,
  a \<open>section\<close>, or a \<open>div\<close> with no \<open>script\<close>, \<open>style\<close> or \<open>nav\<close> below it (the parser
  gives one \<open>body\<close>); and the \<open>href\<close> attribute of every anchor (\<open>None\<close> where the
  attribute is absent; cheerio's \<open>map\<close> leaves those out).
\<close>

definition title_text :: "dom \<Rightarrow> string" where
  "title_text page = selection_text (select [''title''] page)"

definition content_block :: "node \<Rightarrow> bool" where
  "content_block n =
     (has_tag [''main'', ''article'', ''section''] n \<or>
      (has_tag [''div''] n \<and> \<not> list_ex (has_tag [''script'', ''style'', ''nav'']) (tl (subtree n))))"

definition body_text :: "dom \<Rightarrow> string" where
  "body_text page =
     selection_text
       (filter content_block (concat (map (\<lambda>b. tl (subtree b)) (select [''body''] page))))"

definition hrefs :: "dom \<Rightarrow> string option list" where
  "hrefs page = map (\<lambda>a. attr a ''href'') (select [''a''] page)"

definition MAIN_URL :: string where
  "MAIN_URL = ''https://idemitsu-lubricants-staging.webflow.io''"


text \<open>The predicate of \<open>filter\<close> (lines 121 to 129) and the list \<open>links\<close> (lines 118 to 130).
  The second \<open>map\<close> calls the constructor again on the references that passed the filter,
  where it has already succeeded.\<close>

definition keepHref :: "(string \<Rightarrow> string \<Rightarrow> string option) \<Rightarrow> string \<Rightarrow> string \<Rightarrow> string \<Rightarrow> bool" where
  "keepHref R origin url href =
     (if href = [] then False
      else (case R href url of
              None \<Rightarrow> False
            | Some absoluteUrl \<Rightarrow> prefix origin absoluteUrl \<and> CHR ''#'' \<notin> set absoluteUrl))"

definition extractLinks ::
  "(string \<Rightarrow> string \<Rightarrow> string option) \<Rightarrow> string \<Rightarrow> string \<Rightarrow> dom \<Rightarrow> string list" where
  "extractLinks R origin url page =
     List.map_filter (\<lambda>href. R href url)
       (filter (keepHref R origin url) (List.map_filter (\<lambda>h. h) (hrefs page)))"

text \<open>
  What the surroundings give one task of the batch: the clock at its three readings, what
  navigation produced (\<open>Inl\<close> the message of the error \<open>page.goto\<close> or \<open>page.content\<close>
  threw, \<open>Inr\<close> the page as cheerio parses it) and the identifier \<open>uuidv4()\<close> returns
  inside \<open>saveToSearchIndex\<close>.
\<close>

record task_env =
  t_check :: int
  navigation :: "string + dom"
  t_document :: int
  uuid :: string
  t_mark :: int

text \<open>The variables of \<open>POST\<close> that its tasks share: the store, \<open>crawledUrls\<close>, the counter
  \<open>id\<close>, and the lines of \<open>console.error\<close> (URL and message).\<close>

record crawl_run =
  store :: redis
  crawledUrls :: "string list"
  id_var :: nat
  failures :: "(string \<times> string) list"

text \<open>The callback of \<open>urlsToCrawl.map\<close> (lines 81 to 140) for one URL, run as a whole;
  \<open>newPage\<close> and \<open>page.close\<close> are taken to succeed. An error of \<open>canCrawlUrl\<close> is outside
  the \<open>try\<close> block and rejects the task; an error of \<open>markUrlVisited\<close> is inside and is
  logged, after the document has been stored. The calls of \<open>addUrlsToCrawl\<close> are not
  awaited; they are taken to have had their effect when the task ends.\<close>

definition crawlUrl ::
  "(string \<Rightarrow> string \<Rightarrow> string option) \<Rightarrow> string \<Rightarrow> task_env \<Rightarrow> string \<Rightarrow> crawl_run \<Rightarrow>
     js_error + crawl_run" where
  "crawlUrl R origin e url s =
     (case canCrawlUrl url (t_check e) (store s) of
        Inl err \<Rightarrow> Inl err
      | Inr False \<Rightarrow> Inr s
      | Inr True \<Rightarrow>
          (case navigation e of
             Inl message \<Rightarrow> Inr (s\<lparr>failures := failures s @ [(url, message)]\<rparr>)
           | Inr page \<Rightarrow>
               let title = (if trim (title_text page) = [] then url else trim (title_text page));
                   text = trim (collapse_ws (body_text page));
                   document = \<lparr>doc_id = id_var s, doc_title = title, doc_content = text,
                               doc_url = url, doc_timestamp = t_document e\<rparr>;
                   r1 = saveToSearchIndex (uuid e) document (store s)
               in (case markUrlVisited url (t_mark e) r1 of
                     Inl message \<Rightarrow>
                       Inr (s\<lparr>store := r1, failures := failures s @ [(url, message)]\<rparr>)
                   | Inr r2 \<Rightarrow>
                       let links = extractLinks R origin url page;
                           r3 = foldl (\<lambda>r link. addUrlsToCrawl [link] r) r2 links
                       in Inr (s\<lparr>store := r3, crawledUrls := crawledUrls s @ [url]\<rparr>))))"




section \<open>The MiniSearch document store\<close>

text \<open>
  MiniSearch is a library the routes import. Its model keeps what the routes observe:
  the field list the instance was made with and the documents added so far, hence
  \<open>documentCount\<close>. The constructor uses every field name as a property key, which
  converts it to a string and can throw. \<open>add\<close> reads the document's \<open>id\<close>, throws when
  it is \<open>null\<close> or \<open>undefined\<close> and throws on an id the index already has (the ids are
  keys of a \<open>Map\<close>: two arrays or two objects are never the same key); then the document
  is counted, and \<open>add\<close> converts the value of every indexed field that is not \<open>null\<close> or
  \<open>undefined\<close> to a string, which can throw too. \<open>addAll\<close> adds one document after the
  other, so what was added before the one that throws stays added. \<open>search\<close> is a
  parameter of the query route.
\<close>

record minisearch =
  ms_fields :: "json list"
  ms_documents :: "json list"

definition new_MiniSearch :: "json list \<Rightarrow> minisearch" where
  "new_MiniSearch fs = \<lparr>ms_fields = fs, ms_documents = []\<rparr>"

definition construct_MiniSearch :: "json list \<Rightarrow> js_error + minisearch" where
  "construct_MiniSearch fs =
     (if list_ex (\<lambda>f. to_string f = None) fs then Inl TypeError else Inr (new_MiniSearch fs))"

definition documentCount :: "minisearch \<Rightarrow> nat" where
  "documentCount ms = length (ms_documents ms)"

fun same_key :: "json \<Rightarrow> json \<Rightarrow> bool" where
  "same_key (JArr xs) b = False"
| "same_key (JObj kvs) b = False"
| "same_key a b = (a = b)"

definition extract_id :: "json \<Rightarrow> js_error + json" where
  "extract_id d =
     (case get_prop d ''id'' of
        Inl e \<Rightarrow> Inl e
      | Inr None \<Rightarrow> Inl MissingId
      | Inr (Some JNull) \<Rightarrow> Inl MissingId
      | Inr (Some i) \<Rightarrow> Inr i)"

definition has_id :: "minisearch \<Rightarrow> json \<Rightarrow> bool" where
  "has_id ms i =
     list_ex (\<lambda>d. case extract_id d of Inl e \<Rightarrow> False | Inr j \<Rightarrow> same_key i j) (ms_documents ms)"

text \<open>Indexing the field \<open>f\<close> of the document \<open>d\<close> throws.\<close>

definition field_throws :: "json \<Rightarrow> json \<Rightarrow> bool" where
  "field_throws d f =
     (case to_string f of
        None \<Rightarrow> True
      | Some k \<Rightarrow>
          (case get_prop d k of
             Inl e \<Rightarrow> True
           | Inr None \<Rightarrow> False
           | Inr (Some v) \<Rightarrow> v \<noteq> JNull \<and> to_string v = None))"

text \<open>The index after \<open>add\<close> and after \<open>addAll\<close>, with the error when it threw.\<close>

definition ms_add :: "json \<Rightarrow> minisearch \<Rightarrow> minisearch \<times> js_error option" where
  "ms_add d ms =
     (case extract_id d of
        Inl e \<Rightarrow> (ms, Some e)
      | Inr i \<Rightarrow>
          if has_id ms i then (ms, Some (DuplicateId i))
          else (ms\<lparr>ms_documents := ms_documents ms @ [d]\<rparr>,
                if list_ex (field_throws d) (ms_fields ms) then Some TypeError else None))"

fun ms_addAll :: "json list \<Rightarrow> minisearch \<Rightarrow> minisearch \<times> js_error option" where
  "ms_addAll [] ms = (ms, None)"
| "ms_addAll (d # ds) ms =
     (case ms_add d ms of
        (ms', Some e) \<Rightarrow> (ms', Some e)
      | (ms', None) \<Rightarrow> ms_addAll ds ms')"

text \<open>\<open>toJSON()\<close> gives an object with the properties \<open>documentCount\<close>, \<open>nextId\<close>,
  \<open>documentIds\<close>, \<open>fieldIds\<close>, \<open>fieldLength\<close>, \<open>averageFieldLength\<close>, \<open>storedFields\<close>,
  \<open>dirtCount\<close>, \<open>index\<close> and \<open>serializationVersion\<close>; it has no property
  \<open>documents\<close>.\<close>

definition toJSON_documents :: "minisearch \<Rightarrow> json option" where
  "toJSON_documents ms = None"

section \<open>The query route (src/search.txt, app/api/(search)/search/route.js)\<close>

text \<open>What \<open>loadIndex\<close> finds at \<open>INDEX_FILE\<close>: \<open>readFile\<close> rejects, or \<open>JSON.parse\<close>
  throws on the text, or the text parses to a value.\<close>

datatype snapshot_file =
  Unreadable string
| NotJSON string
| Parsed json

definition index_fields :: "json list" where
  "index_fields = [JStr ''title'', JStr ''content'', JStr ''description'', JStr ''links'']"

text \<open>The \<open>try\<close> block of \<open>loadIndex\<close> (lines 13 to 40).\<close>

definition tryLoadIndex :: "snapshot_file \<Rightarrow> js_error + minisearch" where
  "tryLoadIndex f =
     (case f of
        Unreadable m \<Rightarrow> Inl (ReadFailure m)
      | NotJSON m \<Rightarrow> Inl (SyntaxError m)
      | Parsed parsedData \<Rightarrow>
          (case get_prop parsedData ''fields'' of
             Inl e \<Rightarrow> Inl e
           | Inr parsed_fields \<Rightarrow>
               if \<not> truthy parsed_fields \<or> \<not> isArray parsed_fields
               then Inl (InvalidIndex ''Invalid index: missing or invalid fields'')
               else (case get_prop parsedData ''documents'' of
                       Inl e \<Rightarrow> Inl e
                     | Inr parsed_documents \<Rightarrow>
                         if \<not> truthy parsed_documents \<or> \<not> isArray parsed_documents
                         then Inl (InvalidIndex ''Invalid index: missing or invalid documents'')
                         else (case (parsed_fields, parsed_documents) of
                                 (Some (JArr fs), Some (JArr ds)) \<Rightarrow>
                                   (case construct_MiniSearch fs of
                                      Inl e \<Rightarrow> Inl e
                                    | Inr miniSearch \<Rightarrow>
                                        (case ms_addAll ds miniSearch of
                                           (ms, Some e) \<Rightarrow> Inl e
                                         | (ms, None) \<Rightarrow> Inr ms))
                               | _ \<Rightarrow> Inl TypeError))))"

text \<open>\<open>loadIndex\<close>: the \<open>catch\<close> block answers every error of the \<open>try\<close> block with a new,
  empty instance.\<close>

definition loadIndex :: "snapshot_file \<Rightarrow> minisearch" where
  "loadIndex f =
     (case tryLoadIndex f of
        Inl error \<Rightarrow> new_MiniSearch index_fields
      | Inr miniSearch \<Rightarrow> miniSearch)"

text \<open>The responses of the query route, with their status: 200, 400, 404, 500.\<close>

datatype 'hit search_response =
  Results "'hit list"
| QueryRequired
| NoDocumentsIndexed
| FailedToSearch js_error

fun search_status :: "'hit search_response \<Rightarrow> nat" where
  "search_status (Results hits) = 200"
| "search_status QueryRequired = 400"
| "search_status NoDocumentsIndexed = 404"
| "search_status (FailedToSearch e) = 500"

text \<open>\<open>GET\<close> of the query route; \<open>query\<close> is \<open>searchParams.get('query')\<close> (\<open>None\<close> for
  \<open>null\<close>) and \<open>search\<close> is \<open>miniSearch.search\<close> with the options of lines 95 to 101.\<close>

definition GET_search ::
  "(minisearch \<Rightarrow> string \<Rightarrow> js_error + 'hit list) \<Rightarrow> string option \<Rightarrow> snapshot_file \<Rightarrow>
     'hit search_response" where
  "GET_search search query f =
     (case query of
        None \<Rightarrow> QueryRequired
      | Some q \<Rightarrow>
          if q = [] then QueryRequired
          else let miniSearch = loadIndex f
               in if documentCount miniSearch = 0 then NoDocumentsIndexed
                  else (case search miniSearch q of
                          Inl e \<Rightarrow> FailedToSearch e
                        | Inr results \<Rightarrow> Results results))"

section \<open>The crawl-and-index route (src/search.txt, app/api/crawl-and-index/route.js)\<close>

text \<open>
  A page: the HTML text (\<open>page.content()\<close>, or the body of the HTTP response) and the
  tree cheerio parses from it. What the route reads from the tree: the text of \<open>title\<close>,
  the \<open>content\<close> attribute of the first \<open>meta\<close> element named \<open>description\<close> (\<open>None\<close>
  when there is none or it has no such attribute), the text of \<open>html\<close>, the text of each
  heading \<open>h1\<close> to \<open>h5\<close> and, for each anchor, its \<open>href\<close> attribute and its text.
\<close>

record html_page =
  page_html :: string
  page_dom :: dom

definition page_title :: "html_page \<Rightarrow> string" where
  "page_title p = selection_text (select [''title''] (page_dom p))"

definition page_description :: "html_page \<Rightarrow> string option" where
  "page_description p =
     (case filter (\<lambda>m. attr m ''name'' = Some ''description'') (select [''meta''] (page_dom p)) of
        [] \<Rightarrow> None
      | m # ms \<Rightarrow> attr m ''content'')"

definition page_text :: "html_page \<Rightarrow> string" where
  "page_text p = selection_text (select [''html''] (page_dom p))"

definition page_headings :: "html_page \<Rightarrow> string list" where
  "page_headings p = map text_of (select [''h1'', ''h2'', ''h3'', ''h4'', ''h5''] (page_dom p))"

definition page_anchors :: "html_page \<Rightarrow> (string option \<times> string) list" where
  "page_anchors p = map (\<lambda>a. (attr a ''href'', text_of a)) (select [''a''] (page_dom p))"

record document =
  d_id :: string
  d_title :: string
  d_description :: string
  d_content :: string
  d_url :: string
  d_links :: string
  d_lastCrawled :: string

definition doc_json :: "document \<Rightarrow> json" where
  "doc_json d =
     JObj [(''id'', JStr (d_id d)), (''title'', JStr (d_title d)),
           (''description'', JStr (d_description d)), (''content'', JStr (d_content d)),
           (''url'', JStr (d_url d)), (''links'', JStr (d_links d)),
           (''lastCrawled'', JStr (d_lastCrawled d))]"

definition BASE_URL :: string where
  "BASE_URL = ''https://idemitsu-lubricants-staging.webflow.io/''"

definition maxCrawl :: nat where
  "maxCrawl = 5"

text \<open>\<open>html.replace(/<[^>]+>/g, ' ')\<close>: a \<open><\<close>, one or more code units other than \<open>>\<close>,
  and a \<open>>\<close> become one space.\<close>

function strip_tags :: "string \<Rightarrow> string" where
  "strip_tags [] = []"
| "strip_tags (c # cs) =
     (if c = CHR ''<'' \<and> takeWhile (\<lambda>x. x \<noteq> CHR ''>'') cs \<noteq> [] \<and>
         dropWhile (\<lambda>x. x \<noteq> CHR ''>'') cs \<noteq> []
      then CHR '' '' # strip_tags (tl (dropWhile (\<lambda>x. x \<noteq> CHR ''>'') cs))
      else c # strip_tags cs)"
  by pat_completeness auto
termination
proof (relation "measure length")
  fix c :: char and cs :: string
  have "length (tl (dropWhile (\<lambda>x. x \<noteq> CHR ''>'') cs)) \<le> length cs"
    using length_dropWhile_le [of "\<lambda>x. x \<noteq> CHR ''>''" cs] by simp
  then show "(tl (dropWhile (\<lambda>x. x \<noteq> CHR ''>'') cs), c # cs) \<in> measure length"
    by simp
qed simp_all

text \<open>Lines 195 to 204 (and 285 to 294, the same text in \<open>fetchFallback\<close>).\<close>

definition headings_of :: "html_page \<Rightarrow> string" where
  "headings_of p = join '' '' (page_headings p)"

definition bodyContent_of :: "html_page \<Rightarrow> string" where
  "bodyContent_of p =
     (let bodyContent = take 100000 (trim (collapse_ws (page_text p)));
          headings = headings_of p
      in if bodyContent = [] \<and> headings = []
         then (let raw = take 100000 (trim (collapse_ws (strip_tags (page_html p))))
               in if raw = [] then ''No content available'' else raw)
         else bodyContent)"

text \<open>Lines 207 to 222 (and 297 to 312): the anchors with a non-empty \<open>href\<close> that the URL
  parser accepts, resolved against \<open>base\<close> (the constant \<open>BASE_URL\<close> in the route), with
  their trimmed text; those whose absolute URL starts with \<open>base\<close> are kept.\<close>

definition resolveAnchor ::
  "(string \<Rightarrow> string \<Rightarrow> string option) \<Rightarrow> string \<Rightarrow> string option \<times> string \<Rightarrow>
     (string \<times> string) option" where
  "resolveAnchor R base a =
     (case fst a of
        None \<Rightarrow> None
      | Some href \<Rightarrow>
          if href = [] then None
          else (case R href base of
                  None \<Rightarrow> None
                | Some absoluteUrl \<Rightarrow> Some (absoluteUrl, trim (snd a))))"

definition internalLinks ::
  "(string \<Rightarrow> string \<Rightarrow> string option) \<Rightarrow> string \<Rightarrow> html_page \<Rightarrow> (string \<times> string) list" where
  "internalLinks R base p =
     filter (\<lambda>link. prefix base (fst link)) (List.map_filter (resolveAnchor R base) (page_anchors p))"

text \<open>Lines 228 to 243 (and 318 to 333): the document and the list of link targets; \<open>now\<close>
  is \<open>new Date().toISOString()\<close>.\<close>

definition extractPage ::
  "(string \<Rightarrow> string \<Rightarrow> string option) \<Rightarrow> string \<Rightarrow> string \<Rightarrow> string \<Rightarrow> html_page \<Rightarrow>
     document option \<times> string list" where
  "extractPage R base url now p =
     (let title = (if page_title p = [] then ''No title'' else page_title p);
          description = (case page_description p of None \<Rightarrow> [] | Some d \<Rightarrow> d);
          links = internalLinks R base p
      in (Some \<lparr>d_id = url, d_title = title, d_description = description,
                d_content = headings_of p @ '' '' @ bodyContent_of p, d_url = url,
                d_links = join '' '' (map (\<lambda>link. snd link @ '' ('' @ fst link @ '')'') links),
                d_lastCrawled = now\<rparr>,
          map fst links))"

text \<open>
  The request headers of the two strategies: \<open>setUserAgent\<close> and \<open>setExtraHTTPHeaders\<close>
  in \<open>crawlPage\<close> (lines 174 to 179), the option \<open>headers\<close> of \<open>fetch\<close> in
  \<open>fetchFallback\<close> (lines 262 to 267).
\<close>

type_synonym headers = "(string \<times> string) list"

definition puppeteer_headers :: headers where
  "puppeteer_headers =
     [(''User-Agent'', ''Mozilla/5.0 (Windows NT 10.0; Win64; x64) AppleWebKit/537.36 (KHTML, like Gecko) Chrome/91.0.4472.124 Safari/537.36''),
      (''Accept-Language'', ''en-US,en;q=0.9''),
      (''Accept'', ''text/html,application/xhtml+xml''),
      (''Accept-Encoding'', ''gzip, deflate, br'')]"

definition fetch_headers :: headers where
  "fetch_headers =
     [(''User-Agent'', ''Mozilla/5.0 (Windows NT 10.0; Win64; x64) AppleWebKit/537.36 (KHTML, like Gecko) Chrome/91.0.4472.124 Safari/537.36''),
      (''Accept-Language'', ''en-US,en;q=0.9''),
      (''Accept'', ''text/html,application/xhtml+xml''),
      (''Accept-Encoding'', ''gzip, deflate, br'')]"

text \<open>
  What the surroundings give the fetcher. One browser attempt on a URL, with the headers
  the session is given, ends in one of three ways: the launch throws (no new session; the
  message is kept), a later statement of the \<open>try\<close> block throws (the session is there),
  or the block reaches its \<open>return\<close> with the rendered page. The plain HTTP request, with
  its headers, either gives a page or fails (the request throws, or the status is not ok).
  \<open>clock\<close> is the time stamp a document of the URL gets.
\<close>

datatype attempt_outcome =
  LaunchFailed string
| AttemptFailed string
| Rendered html_page

datatype http_outcome =
  FetchFailed string
| Fetched html_page

record site =
  browse :: "string \<Rightarrow> headers \<Rightarrow> nat \<Rightarrow> attempt_outcome"
  http_get :: "string \<Rightarrow> headers \<Rightarrow> http_outcome"
  clock :: "string \<Rightarrow> string"

text \<open>What the fetcher does, in order: the line \<open>Attempt n\<close> it logs, a session launched,
  \<open>browser.close()\<close>, a \<open>setTimeout\<close> wait in milliseconds, the plain HTTP request to a
  URL with its headers.\<close>

datatype event = Attempt nat | Launch | Close | Wait nat | HttpGet string headers

text \<open>\<open>fetchFallback(url)\<close> (lines 258 to 338): its result and the request it makes.\<close>

definition fetchFallback ::
  "(string \<Rightarrow> string \<Rightarrow> string option) \<Rightarrow> string \<Rightarrow> site \<Rightarrow> string \<Rightarrow>
     (document option \<times> string list) \<times> event list" where
  "fetchFallback R base env url =
     (case http_get env url fetch_headers of
        FetchFailed m \<Rightarrow> ((None, []), [HttpGet url fetch_headers])
      | Fetched p \<Rightarrow> (extractPage R base url (clock env url) p, [HttpGet url fetch_headers]))"

text \<open>
  The \<open>for\<close> loop of \<open>crawlPage\<close> from attempt number \<open>attempt\<close> on; \<open>browser\<close> says that
  the variable \<open>browser\<close> holds a session of an earlier attempt. The \<open>finally\<close> block runs
  after the \<open>catch\<close> block, so the fallback request and the wait come before the close.
  \<open>None\<close> is \<open>undefined\<close>, the value of a call that leaves the loop without \<open>return\<close>.
  \<open>browser.close()\<close> is taken to succeed.
\<close>

function attemptLoop ::
  "(string \<Rightarrow> string \<Rightarrow> string option) \<Rightarrow> string \<Rightarrow> site \<Rightarrow> string \<Rightarrow> nat \<Rightarrow> nat \<Rightarrow> bool \<Rightarrow>
     (document option \<times> string list) option \<times> event list" where
  "attemptLoop R base env url retries attempt browser =
     (if attempt \<le> retries then
        (case browse env url puppeteer_headers attempt of
           Rendered p \<Rightarrow>
             (Some (extractPage R base url (clock env url) p), [Attempt attempt, Launch, Close])
         | AttemptFailed m \<Rightarrow>
             if sublist ''ENOEXEC'' m \<or> attempt = retries
             then (Some (fst (fetchFallback R base env url)),
                   [Attempt attempt, Launch] @ snd (fetchFallback R base env url) @ [Close])
             else apsnd (\<lambda>ev. [Attempt attempt, Launch, Wait 1000, Close] @ ev)
                    (attemptLoop R base env url retries (Suc attempt) True)
         | LaunchFailed m \<Rightarrow>
             if sublist ''ENOEXEC'' m \<or> attempt = retries
             then (Some (fst (fetchFallback R base env url)),
                   [Attempt attempt] @ snd (fetchFallback R base env url) @
                   (if browser then [Close] else []))
             else apsnd (\<lambda>ev. [Attempt attempt, Wait 1000] @ (if browser then [Close] else []) @ ev)
                    (attemptLoop R base env url retries (Suc attempt) browser))
      else (None, []))"
  by pat_completeness auto
termination
  by (relation "measure (\<lambda>(R, base, env, url, retries, attempt, browser). Suc retries - attempt)")
    auto

declare attemptLoop.simps [simp del]

text \<open>\<open>crawlPage(url, visited, retries)\<close>: the result, the set \<open>visited\<close> afterwards and what
  was done.\<close>

definition crawlPage ::
  "(string \<Rightarrow> string \<Rightarrow> string option) \<Rightarrow> string \<Rightarrow> site \<Rightarrow> string \<Rightarrow> string list \<Rightarrow> nat \<Rightarrow>
     (document option \<times> string list) option \<times> string list \<times> event list" where
  "crawlPage R base env url visited_before retries =
     (if url \<in> set visited_before then (Some (None, []), visited_before, [])
      else (case attemptLoop R base env url retries 1 False of
              (result, ev) \<Rightarrow> (result, visited_before @ [url], ev)))"

text \<open>The test \<open>/\.(pdf|jpg|png|gif|zip|css|js)$/i\<close> of line 365.\<close>

definition to_lower :: "char \<Rightarrow> char" where
  "to_lower c =
     (if 65 \<le> (of_char c :: nat) \<and> (of_char c :: nat) \<le> 90 then char_of ((of_char c :: nat) + 32)
      else c)"

definition is_asset :: "string \<Rightarrow> bool" where
  "is_asset link =
     list_ex (\<lambda>ext. suffix (CHR ''.'' # ext) (map to_lower link))
       [''pdf'', ''jpg'', ''png'', ''gif'', ''zip'', ''css'', ''js'']"

text \<open>The variables of \<open>GET\<close> that its loop changes.\<close>

record crawl_vars =
  visited_urls :: "string list"
  toCrawl :: "string list"
  documents :: "document list"
  failedUrls :: "string list"
  crawlCount :: nat
  events :: "event list"

text \<open>Lines 361 to 369.\<close>

definition enqueue :: "string list \<Rightarrow> string list \<Rightarrow> string list \<Rightarrow> string list" where
  "enqueue visited_now queue found =
     foldl (\<lambda>q link. if link \<notin> set visited_now \<and> link \<notin> set q \<and> \<not> is_asset link
                      then q @ [link] else q) queue found"

text \<open>One turn of the \<open>while\<close> loop (lines 350 to 374); destructuring \<open>undefined\<close> throws.\<close>

definition crawlStep ::
  "(string \<Rightarrow> string \<Rightarrow> string option) \<Rightarrow> string \<Rightarrow> site \<Rightarrow> crawl_vars \<Rightarrow> js_error + crawl_vars" where
  "crawlStep R base env st =
     (let url = last (toCrawl st) in
      case crawlPage R base env url (visited_urls st) 2 of
        (None, visited_now, ev) \<Rightarrow> Inl TypeError
      | (Some (doc, found), visited_now, ev) \<Rightarrow>
          Inr (st\<lparr>visited_urls := visited_now,
                  toCrawl := enqueue visited_now (butlast (toCrawl st)) found,
                  documents := (case doc of Some d \<Rightarrow> documents st @ [d] | None \<Rightarrow> documents st),
                  failedUrls := (case doc of Some d \<Rightarrow> failedUrls st | None \<Rightarrow> failedUrls st @ [url]),
                  crawlCount := Suc (crawlCount st),
                  events := events st @ ev @ [Wait 500]\<rparr>))"

lemma crawlStep_count: "crawlStep R base env st = Inr st' \<Longrightarrow> crawlCount st' = Suc (crawlCount st)"
  by (auto simp: crawlStep_def Let_def split: prod.splits option.splits)

function crawlLoop ::
  "(string \<Rightarrow> string \<Rightarrow> string option) \<Rightarrow> string \<Rightarrow> site \<Rightarrow> crawl_vars \<Rightarrow> js_error + crawl_vars" where
  "crawlLoop R base env st =
     (if toCrawl st \<noteq> [] \<and> crawlCount st < maxCrawl
      then (case crawlStep R base env st of
              Inl e \<Rightarrow> Inl e
            | Inr st' \<Rightarrow> crawlLoop R base env st')
      else Inr st)"
  by pat_completeness auto
termination
  by (relation "measure (\<lambda>(R, base, env, st). maxCrawl - crawlCount st)")
    (auto dest: crawlStep_count)

declare crawlLoop.simps [simp del]

text \<open>
  The state that outlives one call of \<open>GET\<close>: the instance \<open>miniSearch\<close> of the module
  (line 146) for as long as the module stays loaded, and the file \<open>INDEX_FILE\<close>.
\<close>

record index_route =
  miniSearch :: minisearch
  index_file :: snapshot_file

datatype disk = DiskOk | WriteFails string | ReadBackFails string

datatype index_response =
  Indexed "document list" "string list"
| NoDocumentsIndexed500 "string list"
| FailedToSave string "string list"
| FailedToIndex js_error

fun index_status :: "index_response \<Rightarrow> nat" where
  "index_status (Indexed ds fs) = 200"
| "index_status (NoDocumentsIndexed500 fs) = 500"
| "index_status (FailedToSave m fs) = 500"
| "index_status (FailedToIndex e) = 500"

definition initial_vars :: "string \<Rightarrow> crawl_vars" where
  "initial_vars base =
     \<lparr>visited_urls = [], toCrawl = [base], documents = [], failedUrls = [], crawlCount = 0,
      events = []\<rparr>"

definition fallbackDocument :: "string \<Rightarrow> string \<Rightarrow> document" where
  "fallbackDocument base now =
     \<lparr>d_id = base, d_title = ''Fallback Document'', d_description = ''No content crawled'',
      d_content = ''Failed to crawl content from the site. Please check site accessibility.'',
      d_url = base, d_links = [], d_lastCrawled = now\<rparr>"

text \<open>Lines 381 to 393: the list handed to \<open>addAll\<close>.\<close>

definition documentsToIndex :: "string \<Rightarrow> site \<Rightarrow> crawl_vars \<Rightarrow> document list" where
  "documentsToIndex base env st =
     (if documents st = [] then [fallbackDocument base (clock env base)] else documents st)"

text \<open>Lines 419 to 423: \<open>indexData.documents || documents\<close>.\<close>

definition snapshot_json :: "minisearch \<Rightarrow> document list \<Rightarrow> json" where
  "snapshot_json ms ds =
     JObj [(''fields'', JArr index_fields),
           (''documents'',
              (case toJSON_documents ms of
                 None \<Rightarrow> JArr (map doc_json ds)
               | Some v \<Rightarrow> if truthy (Some v) then v else JArr (map doc_json ds)))]"

text \<open>\<open>GET\<close> of the crawl-and-index route, from line 381 on, after the loop has ended in
  \<open>st\<close>.\<close>

definition indexDocuments ::
  "string \<Rightarrow> site \<Rightarrow> disk \<Rightarrow> crawl_vars \<Rightarrow> index_route \<Rightarrow> index_route \<times> index_response" where
  "indexDocuments base env d st route =
     (let ds = documentsToIndex base env st in
      case ms_addAll (map doc_json ds) (miniSearch route) of
        (ms, Some e) \<Rightarrow> (route\<lparr>miniSearch := ms\<rparr>, FailedToIndex e)
      | (ms, None) \<Rightarrow>
          if documentCount ms = 0
          then (route\<lparr>miniSearch := ms\<rparr>, NoDocumentsIndexed500 (failedUrls st))
          else (case d of
                  WriteFails m \<Rightarrow> (route\<lparr>miniSearch := ms\<rparr>, FailedToSave m (failedUrls st))
                | ReadBackFails m \<Rightarrow>
                    (\<lparr>miniSearch = ms, index_file = Parsed (snapshot_json ms ds)\<rparr>,
                     FailedToSave m (failedUrls st))
                | DiskOk \<Rightarrow>
                    (\<lparr>miniSearch = ms, index_file = Parsed (snapshot_json ms ds)\<rparr>,
                     Indexed ds (failedUrls st))))"

definition GET_index ::
  "(string \<Rightarrow> string \<Rightarrow> string option) \<Rightarrow> string \<Rightarrow> site \<Rightarrow> disk \<Rightarrow> index_route \<Rightarrow>
     index_route \<times> index_response" where
  "GET_index R base env d route =
     (case crawlLoop R base env (initial_vars base) of
        Inl e \<Rightarrow> (route, FailedToIndex e)
      | Inr st \<Rightarrow> indexDocuments base env d st route)"

text \<open>The module as loaded: the instance of line 146, before any document is added.\<close>

definition loaded_module :: "snapshot_file \<Rightarrow> index_route" where
  "loaded_module f = \<lparr>miniSearch = new_MiniSearch index_fields, index_file = f\<rparr>"

subsection \<open>Readings of what the fetcher did\<close>

text \<open>Four readings of what the fetcher did: the numbers of the attempts it logged;
  whether every session launched was closed before the next launch and before the end;
  whether a wait of 1000 ms lies between every two attempts (\<open>0\<close>: no attempt yet,
  \<open>1\<close>: an attempt and no such wait since, \<open>2\<close>: a wait since the last attempt); and
  the plain HTTP requests made, each with its URL and its headers.\<close>

fun attempt_numbers :: "event list \<Rightarrow> nat list" where
  "attempt_numbers [] = []"
| "attempt_numbers (Attempt n # es) = n # attempt_numbers es"
| "attempt_numbers (e # es) = attempt_numbers es"

fun sessions_closed :: "bool \<Rightarrow> event list \<Rightarrow> bool" where
  "sessions_closed is_open [] = (\<not> is_open)"
| "sessions_closed is_open (Launch # es) = (\<not> is_open \<and> sessions_closed True es)"
| "sessions_closed is_open (Close # es) = sessions_closed False es"
| "sessions_closed is_open (e # es) = sessions_closed is_open es"

fun delayed :: "nat \<Rightarrow> event list \<Rightarrow> bool" where
  "delayed s [] = True"
| "delayed s (Attempt n # es) = (s \<noteq> 1 \<and> delayed 1 es)"
| "delayed s (Wait ms # es) = delayed (if s = 1 \<and> ms = 1000 then 2 else s) es"
| "delayed s (e # es) = delayed s es"

fun requests :: "event list \<Rightarrow> (string \<times> headers) list" where
  "requests [] = []"
| "requests (HttpGet url hs # es) = (url, hs) # requests es"
| "requests (e # es) = requests es"

text \<open>The message of a browser attempt that failed.\<close>

fun failure_message :: "attempt_outcome \<Rightarrow> string option" where
  "failure_message (LaunchFailed m) = Some m"
| "failure_message (AttemptFailed m) = Some m"
| "failure_message (Rendered p) = None"

text \<open>A document without its time stamp, for comparing the documents of two runs.\<close>

definition undated :: "document \<Rightarrow> document" where
  "undated d = d\<lparr>d_lastCrawled := []\<rparr>"

text \<open>Two results of \<open>crawlPage\<close>, and two states of the loop of \<open>GET\<close>, that differ
  at most in the time stamps of their documents.\<close>

definition same_result ::
  "document option \<times> string list \<Rightarrow> document option \<times> string list \<Rightarrow> bool" where
  "same_result r r' = (map_option undated (fst r) = map_option undated (fst r') \<and> snd r = snd r')"

definition same_vars :: "crawl_vars \<Rightarrow> crawl_vars \<Rightarrow> bool" where
  "same_vars st st' =
     (visited_urls st' = visited_urls st \<and> toCrawl st' = toCrawl st \<and>
      map undated (documents st') = map undated (documents st) \<and>
      failedUrls st' = failedUrls st \<and> crawlCount st' = crawlCount st \<and> events st' = events st)"

section \<open>Concrete inputs\<close>

text \<open>The start page of \<open>https://example.com\<close> as the Redis crawl route sees it, with the
  three anchors of the example.\<close>

definition example_rendered :: dom where
  "example_rendered =
     [Element ''html'' []
        [Element ''head'' [] [Element ''title'' [] [Text ''Home'']],
         Element ''body'' []
           [Element ''main'' []
              [Text ''Welcome'',
               Element ''a'' [(''href'', ''/a'')] [Text ''a''],
               Element ''a'' [(''href'', ''https://other.site/b'')] [Text ''b''],
               Element ''a'' [(''href'', ''#frag'')] [Text ''frag'']]]]]"

text \<open>A rendered page that links to a PDF file and to a place inside another page.\<close>

definition report_rendered :: dom where
  "report_rendered =
     [Element ''html'' []
        [Element ''head'' [] [Element ''title'' [] [Text ''Home'']],
         Element ''body'' []
           [Element ''main'' []
              [Text ''Welcome'',
               Element ''a'' [(''href'', ''/report.pdf'')] [Text ''report''],
               Element ''a'' [(''href'', ''/a#top'')] [Text ''top'']]]]]"

text \<open>A task whose navigation times out, a task that loads the page, and the variables
  of \<open>POST\<close> before its first task, over an empty store and over the seeded one.\<close>

definition timeout_task :: task_env where
  "timeout_task =
     \<lparr>t_check = 1700000000000, navigation = Inl ''Navigation timeout of 30000 ms exceeded'',
      t_document = 1700000030000, uuid = ''3f2b8c1e-0d4a-4c57-9b1e-6a7d5e2f9c10'',
      t_mark = 1700000030001\<rparr>"

definition loaded_task :: task_env where
  "loaded_task =
     \<lparr>t_check = 1700000000000, navigation = Inr example_rendered,
      t_document = 1700000002000, uuid = ''3f2b8c1e-0d4a-4c57-9b1e-6a7d5e2f9c10'',
      t_mark = 1700000002001\<rparr>"

definition start_run :: crawl_run where
  "start_run = \<lparr>store = empty_redis, crawledUrls = [], id_var = 1, failures = []\<rparr>"

definition seeded_run :: crawl_run where
  "seeded_run = \<lparr>store = seeded_redis, crawledUrls = [], id_var = 1, failures = []\<rparr>"


text \<open>The page of the example as \<open>crawlPage\<close> gets it, and the document it builds from it
  at \<open>https://example.com/\<close>.\<close>

definition example_html :: html_page where
  "example_html =
     \<lparr>page_html = ''<html><head><title>Home</title></head><body><h1>Home</h1><a href=/a>a</a><a href=https://other.site/b>b</a><a href=#frag>frag</a></body></html>'',
      page_dom =
        [Element ''html'' []
           [Element ''head'' [] [Element ''title'' [] [Text ''Home'']],
            Element ''body'' []
              [Element ''h1'' [] [Text ''Home''],
               Element ''a'' [(''href'', ''/a'')] [Text ''a''],
               Element ''a'' [(''href'', ''https://other.site/b'')] [Text ''b''],
               Element ''a'' [(''href'', ''#frag'')] [Text ''frag'']]]]\<rparr>"

definition example_document :: document where
  "example_document =
     \<lparr>d_id = ''https://example.com/'', d_title = ''Home'', d_description = [],
      d_content = ''Home HomeHomeabfrag'', d_url = ''https://example.com/'',
      d_links = ''a (https://example.com/a) frag (https://example.com/#frag)'',
      d_lastCrawled = ''2026-01-01T00:00:00.000Z''\<rparr>"

text \<open>A page whose only heading has \<open>n\<close> code units.\<close>

definition heading_page :: "nat \<Rightarrow> html_page" where
  "heading_page n =
     \<lparr>page_html = ''<html><head><title>Long</title></head><body><h1>'' @ replicate n CHR ''h'' @
                   ''</h1></body></html>'',
      page_dom =
        [Element ''html'' []
           [Element ''head'' [] [Element ''title'' [] [Text ''Long'']],
            Element ''body'' [] [Element ''h1'' [] [Text (replicate n CHR ''h'')]]]]\<rparr>"

text \<open>A site whose pages all render, at the first attempt, as that page.\<close>

definition heading_site :: "nat \<Rightarrow> site" where
  "heading_site n =
     \<lparr>browse = (\<lambda>url hs k. Rendered (heading_page n)),
      http_get = (\<lambda>url hs. Fetched (heading_page n)),
      clock = (\<lambda>url. ''2026-01-01T00:00:00.000Z'')\<rparr>"

text \<open>A snapshot with one document, a snapshot without \<open>fields\<close>, and a search that finds
  the documents whose title is the query.\<close>

definition one_document_snapshot :: json where
  "one_document_snapshot =
     JObj [(''fields'', JArr index_fields),
           (''documents'', JArr [doc_json (fallbackDocument ''https://example.com/''
              ''2026-01-01T00:00:00.000Z'')])]"

definition no_fields_snapshot :: json where
  "no_fields_snapshot = JObj [(''documents'', JArr [])]"

definition title_search :: "minisearch \<Rightarrow> string \<Rightarrow> js_error + json list" where
  "title_search ms q =
     Inr (filter (\<lambda>d. get_prop d ''title'' = Inr (Some (JStr q))) (ms_documents ms))"

text \<open>A site that cannot be reached at all; one whose start page renders at the second
  attempt; one where the browser binary cannot be run and the plain request, with the
  headers of the browser session, gets the page; and the unreachable site a day later.\<close>

definition unreachable_site :: site where
  "unreachable_site =
     \<lparr>browse = (\<lambda>url hs n. AttemptFailed ''net::ERR_CONNECTION_REFUSED''),
      http_get = (\<lambda>url hs. FetchFailed ''connect ECONNREFUSED''),
      clock = (\<lambda>url. ''2026-01-01T00:00:00.000Z'')\<rparr>"

definition flaky_site :: site where
  "flaky_site =
     \<lparr>browse = (\<lambda>url hs n. if n = 2 \<and> url = ''https://example.com/'' then Rendered example_html
                             else AttemptFailed ''Navigation timeout of 120000 ms exceeded''),
      http_get = (\<lambda>url hs. FetchFailed ''connect ECONNREFUSED''),
      clock = (\<lambda>url. ''2026-01-01T00:00:00.000Z'')\<rparr>"

definition no_browser_site :: site where
  "no_browser_site =
     \<lparr>browse = (\<lambda>url hs n. LaunchFailed ''spawn ENOEXEC''),
      http_get = (\<lambda>url hs. if url = ''https://example.com/'' \<and> hs = puppeteer_headers
                             then Fetched example_html else FetchFailed ''Forbidden''),
      clock = (\<lambda>url. ''2026-01-01T00:00:00.000Z'')\<rparr>"

definition later_site :: site where
  "later_site = unreachable_site\<lparr>clock := (\<lambda>url. ''2026-01-02T00:00:00.000Z'')\<rparr>"

text \<open>The module and the file after a first run of \<open>GET\<close> over \<open>unreachable_site\<close>.\<close>

definition first_run_route :: index_route where
  "first_run_route =
     \<lparr>miniSearch =
        \<lparr>ms_fields = index_fields,
         ms_documents = [doc_json (fallbackDocument ''https://example.com/''
            ''2026-01-01T00:00:00.000Z'')]\<rparr>,
      index_file = Parsed one_document_snapshot\<rparr>"

section \<open>Decimal round trip\<close>

lemma is_digit_digit_char: "d < 10 \<Longrightarrow> is_digit (digit_char d)"
  by (simp add: is_digit_def digit_char_def)

lemma digit_val_digit_char: "d < 10 \<Longrightarrow> digit_val (digit_char d) = d"
  by (simp add: digit_val_def digit_char_def)

lemma digits_all_digit: "list_all is_digit (digits n)"
proof (induction n rule: digits.induct)
  case (1 n)
  show ?case
  proof (cases "n < 10")
    case True
    then show ?thesis by (subst digits.simps) (simp add: is_digit_digit_char)
  next
    case False
    have "list_all is_digit (digits (n div 10))" using 1 False by simp
    moreover have "is_digit (digit_char (n mod 10))" by (simp add: is_digit_digit_char)
    ultimately show ?thesis using False by (subst digits.simps) simp
  qed
qed

lemma digits_nonempty: "digits n \<noteq> []"
  by (subst digits.simps) simp

lemma digits_value_snoc: "digits_value (ds @ [c]) = digits_value ds * 10 + digit_val c"
  by (simp add: digits_value_def)

lemma digits_value_digits: "digits_value (digits n) = n"
proof (induction n rule: digits.induct)
  case (1 n)
  show ?case
  proof (cases "n < 10")
    case True
    then show ?thesis
      by (subst digits.simps) (simp add: digits_value_def digit_val_digit_char)
  next
    case False
    have ih: "digits_value (digits (n div 10)) = n div 10" using 1 False by simp
    have "digits_value (digits n) = digits_value (digits (n div 10) @ [digit_char (n mod 10)])"
      using False by (subst digits.simps) simp
    also have "\<dots> = (n div 10) * 10 + n mod 10"
      by (simp add: digits_value_snoc ih digit_val_digit_char)
    finally show ?thesis by simp
  qed
qed

lemma is_digit_not_space: "is_digit c \<Longrightarrow> \<not> is_space c"
  by (auto simp: is_digit_def is_space_def)

lemma is_digit_not_sign: "is_digit c \<Longrightarrow> c \<noteq> CHR ''-'' \<and> c \<noteq> CHR ''+''"
  by (auto simp: is_digit_def)

lemma takeWhile_all: "\<forall>x\<in>set xs. P x \<Longrightarrow> takeWhile P xs = xs"
  by (induction xs) simp_all

lemma parseInt_unsigned:
  assumes "list_all is_digit ds" and "ds \<noteq> []"
  shows "parseInt ds = Some (int (digits_value ds))"
proof -
  obtain c cs where dc: "ds = c # cs"
    using assms(2) by (cases ds) auto
  have c: "is_digit c" using assms(1) dc by simp
  have tw: "takeWhile is_digit ds = ds"
    using assms(1) by (simp add: takeWhile_all list_all_iff)
  have dw: "dropWhile is_space ds = ds"
    using is_digit_not_space [OF c] dc by simp
  have hd: "hd ds \<noteq> CHR ''-''" "hd ds \<noteq> CHR ''+''"
    using is_digit_not_sign [OF c] dc by simp_all
  show ?thesis
    unfolding parseInt_def Let_def dw
    using hd assms(2) by (simp add: tw)
qed

lemma parseInt_digits: "parseInt (digits n) = Some (int n)"
  using parseInt_unsigned [OF digits_all_digit digits_nonempty, of n]
  by (simp add: digits_value_digits)

lemma parseInt_minus_digits: "parseInt (CHR ''-'' # digits n) = Some (- int n)"
proof -
  have tw: "takeWhile is_digit (digits n) = digits n"
    using digits_all_digit [of n] by (simp add: takeWhile_all list_all_iff)
  have dw: "dropWhile is_space (CHR ''-'' # digits n) = CHR ''-'' # digits n"
    by (simp add: is_space_def)
  show ?thesis
    unfolding parseInt_def Let_def dw
    by (simp add: tw digits_nonempty digits_value_digits)
qed

lemma parseInt_toString: "parseInt (toString n) = Some n"
  by (simp add: toString_def parseInt_digits parseInt_minus_digits)

lemma toString_nonempty: "toString n \<noteq> []"
  by (simp add: toString_def digits_nonempty)

section \<open>The revisit window\<close>

text \<open>
  C1 (as amended). A URL under which the hash holds the timestamp \<open>T\<close> can be crawled
  again at time \<open>T + d\<close> exactly when \<open>d\<close> is more than six hours (21600000 ms): the
  comparison of \<open>canCrawlUrl\<close> is strict, so the answer at exactly six hours is still
  false. A URL with no entry in the hash can be crawled, and so can one whose entry is
  the number 0, which \<open>!timestamp\<close> takes for a missing one.
\<close>

theorem canCrawlUrl_window:
  "(visited r url = Some (JNum T) \<and> T \<noteq> 0 \<longrightarrow>
      canCrawlUrl url (T + d) r = Inr (21600000 < d)) \<and>
   (visited r url = None \<longrightarrow> canCrawlUrl url now r = Inr True) \<and>
   (visited r url = Some (JNum 0) \<longrightarrow> canCrawlUrl url now r = Inr True)"
  by (simp add: canCrawlUrl_def parseInt_toString sixHours_def)

theorem canCrawlUrl_window_witness:
  "visited seeded_redis ''https://example.com/a'' = Some (JNum 1700000000000) \<and>
   canCrawlUrl ''https://example.com/a'' (1700000000000 + 21600001) seeded_redis = Inr True \<and>
   canCrawlUrl ''https://example.com/a'' (1700000000000 + 21599999) seeded_redis = Inr False \<and>
   visited empty_redis ''https://example.com/a'' = None \<and>
   canCrawlUrl ''https://example.com/a'' 1700000000000 empty_redis = Inr True \<and>
   canCrawlUrl ''https://example.com/a'' 1000
     (empty_redis\<lparr>visited := [''https://example.com/a'' \<mapsto> JNum 0]\<rparr>) = Inr True"
proof -
  have v: "visited seeded_redis ''https://example.com/a'' = Some (JNum 1700000000000)"
    by (simp add: seeded_redis_def)
  have n: "visited empty_redis ''https://example.com/a'' = None"
    by (simp add: empty_redis_def)
  have z: "visited (empty_redis\<lparr>visited := [''https://example.com/a'' \<mapsto> JNum 0]\<rparr>)
      ''https://example.com/a'' = Some (JNum 0)"
    by simp
  show ?thesis
    using canCrawlUrl_window [of seeded_redis "''https://example.com/a''" 1700000000000 21600001]
      canCrawlUrl_window [of seeded_redis "''https://example.com/a''" 1700000000000 21599999]
      canCrawlUrl_window [of empty_redis "''https://example.com/a''" 1 0 1700000000000]
      canCrawlUrl_window
        [of "empty_redis\<lparr>visited := [''https://example.com/a'' \<mapsto> JNum 0]\<rparr>"
          "''https://example.com/a''" 1 0 1000] v n z
    by simp
qed

text \<open>The claim as written promises \<open>true\<close> from six hours on; at exactly six hours
  after the recorded visit the answer is \<open>false\<close>.\<close>

theorem canCrawlUrl_at_six_hours_counterexample:
  "visited seeded_redis ''https://example.com/a'' = Some (JNum 1700000000000) \<and>
   canCrawlUrl ''https://example.com/a'' (1700000000000 + 6 * 60 * 60 * 1000) seeded_redis
     = Inr False"
  by (simp add: canCrawlUrl_def seeded_redis_def parseInt_toString sixHours_def)

section \<open>The Redis crawl route: visits and stored documents\<close>

lemma foldl_addUrls_visited [simp]:
  "visited (foldl (\<lambda>r link. addUrlsToCrawl [link] r) r ls) = visited r"
  by (induction ls arbitrary: r) (simp_all add: addUrlsToCrawl_def)

lemma foldl_addUrls_index [simp]:
  "index (foldl (\<lambda>r link. addUrlsToCrawl [link] r) r ls) = index r"
  by (induction ls arbitrary: r) (simp_all add: addUrlsToCrawl_def)

lemma foldl_addUrls_log [simp]:
  "console_log (foldl (\<lambda>r link. addUrlsToCrawl [link] r) r ls) = console_log r"
  by (induction ls arbitrary: r) (simp_all add: addUrlsToCrawl_def)

lemma saveToSearchIndex_visited [simp]:
  "visited (saveToSearchIndex u d r) = visited r"
  by (simp add: saveToSearchIndex_def Let_def split: option.splits)



lemma markUrlVisited_visited:
  "markUrlVisited url now r = Inr r2 \<Longrightarrow> hset (visited r) url = Inr (visited r2)"
  by (auto simp: markUrlVisited_def split: sum.splits)


lemma markUrlVisited_after_save:
  "markUrlVisited url now (saveToSearchIndex u d r) =
     (case markUrlVisited url now r of
        Inl m \<Rightarrow> Inl m
      | Inr r2 \<Rightarrow> Inr ((saveToSearchIndex u d r)\<lparr>visited := visited r2\<rparr>))"
  by (simp add: markUrlVisited_def split: sum.splits)

text \<open>
  What \<open>markUrlVisited\<close> leaves in the hash: the fields it writes are the decimal indices
  of the code units of the URL, so the field of a URL that is not such an index keeps the
  value it had, and \<open>canCrawlUrl\<close> answers for it as before.
\<close>

lemma foldl_update_other:
  "k \<notin> fst ` set kvs \<Longrightarrow> foldl (\<lambda>h (field, v). h(field \<mapsto> v)) h kvs k = h k"
  by (induction kvs arbitrary: h) auto

lemma hset_entries_fields:
  "fst ` set (hset_entries kv) = (\<lambda>i. toString (int i)) ` {..<length kv}"
proof -
  have "fst ` set (hset_entries kv) = (\<lambda>i. toString (int i)) ` fst ` set (enumerate 0 kv)"
    by (auto simp: hset_entries_def image_iff split: prod.splits) force+
  moreover have "fst ` set (enumerate 0 kv) = set (map fst (enumerate 0 kv))"
    by (simp only: set_map)
  ultimately show ?thesis by (simp add: atLeast0LessThan)
qed

lemma toString_all_digits: "list_all is_digit (toString (int i))"
  by (simp add: toString_def digits_all_digit)

lemma markUrlVisited_keeps_url:
  assumes "\<not> list_all is_digit url" and "markUrlVisited url now r = Inr r2"
  shows "visited r2 url = visited r url" and "canCrawlUrl url t r2 = canCrawlUrl url t r"
proof -
  have "url \<notin> fst ` set (hset_entries url)"
    using assms(1) toString_all_digits unfolding hset_entries_fields by force
  then show "visited r2 url = visited r url"
    using assms(2) foldl_update_other [of url "hset_entries url" "visited r"]
    by (auto simp: markUrlVisited_def hset_def split: if_splits)
  then show "canCrawlUrl url t r2 = canCrawlUrl url t r"
    by (simp add: canCrawlUrl_def)
qed

text \<open>At the URL \<open>https://example.com/a\<close>: the fields \<open>0\<close> to \<open>20\<close> hold its code units and
  the URL itself is no field.\<close>

lemma markUrlVisited_example:
  "(case markUrlVisited ''https://example.com/a'' 1700000002001 empty_redis of
      Inl message \<Rightarrow> False
    | Inr r2 \<Rightarrow>
        visited r2 ''https://example.com/a'' = None \<and>
        visited r2 ''0'' = Some (JStr ''h'') \<and>
        visited r2 ''20'' = Some (JStr ''a'') \<and>
        visited r2 ''21'' = None)"
  by code_simp

lemma crawlUrl_success:
  assumes "canCrawlUrl url (t_check e) (store s) = Inr True" and "navigation e = Inr page"
    and "markUrlVisited url (t_mark e) (store s) = Inr r2"
  shows "\<exists>s'. crawlUrl R origin e url s = Inr s' \<and> visited (store s') = visited r2 \<and>
           crawledUrls s' = crawledUrls s @ [url]"
  using assms by (simp add: crawlUrl_def Let_def markUrlVisited_after_save)

text \<open>
  C2 (as amended). A task of the batch calls \<open>markUrlVisited\<close> only on its success path:
  when the URL may be crawled and navigation gives a page, the document is stored, the
  hash is the one \<open>markUrlVisited\<close> leaves and the URL is reported as crawled; when
  navigation throws, the \<open>catch\<close> block only logs and the store is left as it was; a URL
  that \<open>canCrawlUrl\<close> refuses is skipped with nothing changed.
\<close>

theorem crawlUrl_marks_visited_on_success:
  "(canCrawlUrl url (t_check e) (store s) = Inr True \<and> navigation e = Inr page \<and>
    markUrlVisited url (t_mark e) (store s) = Inr r2 \<longrightarrow>
      (\<exists>s'. crawlUrl R origin e url s = Inr s' \<and> visited (store s') = visited r2 \<and>
            crawledUrls s' = crawledUrls s @ [url])) \<and>
   (canCrawlUrl url (t_check e) (store s) = Inr True \<and> navigation e = Inl message \<longrightarrow>
      crawlUrl R origin e url s = Inr (s\<lparr>failures := failures s @ [(url, message)]\<rparr>)) \<and>
   (canCrawlUrl url (t_check e) (store s) = Inr False \<longrightarrow> crawlUrl R origin e url s = Inr s)"
proof -
  have "canCrawlUrl url (t_check e) (store s) = Inr True \<and> navigation e = Inl message \<longrightarrow>
      crawlUrl R origin e url s = Inr (s\<lparr>failures := failures s @ [(url, message)]\<rparr>)"
    by (simp add: crawlUrl_def)
  moreover have "canCrawlUrl url (t_check e) (store s) = Inr False \<longrightarrow>
      crawlUrl R origin e url s = Inr s"
    by (simp add: crawlUrl_def)
  ultimately show ?thesis using crawlUrl_success [of url e s page r2 R origin] by blast
qed

theorem crawlUrl_marks_visited_on_success_witness:
  "canCrawlUrl ''https://example.com/a'' (t_check loaded_task) (store start_run) = Inr True \<and>
   navigation loaded_task = Inr example_rendered \<and>
   (\<exists>r2 s'. markUrlVisited ''https://example.com/a'' (t_mark loaded_task) (store start_run) = Inr r2 \<and>
      crawlUrl URL_href ''https://example.com'' loaded_task ''https://example.com/a'' start_run
        = Inr s' \<and>
      visited (store s') = visited r2 \<and> crawledUrls s' = [''https://example.com/a'']) \<and>
   navigation timeout_task = Inl ''Navigation timeout of 30000 ms exceeded'' \<and>
   crawlUrl URL_href ''https://example.com'' timeout_task ''https://example.com/a'' start_run
     = Inr (start_run\<lparr>failures :=
         [(''https://example.com/a'', ''Navigation timeout of 30000 ms exceeded'')]\<rparr>) \<and>
   canCrawlUrl ''https://example.com/a'' (t_check loaded_task) (store seeded_run) = Inr False \<and>
   crawlUrl URL_href ''https://example.com'' loaded_task ''https://example.com/a'' seeded_run
     = Inr seeded_run"
proof -
  let ?u = "''https://example.com/a''"
  have can: "canCrawlUrl ?u (t_check loaded_task) (store start_run) = Inr True"
    by (simp add: canCrawlUrl_def start_run_def empty_redis_def)
  have can': "canCrawlUrl ?u (t_check timeout_task) (store start_run) = Inr True"
    by (simp add: canCrawlUrl_def start_run_def empty_redis_def)
  have cannot: "canCrawlUrl ?u (t_check loaded_task) (store seeded_run) = Inr False"
    by (simp add: canCrawlUrl_def seeded_run_def seeded_redis_def loaded_task_def
        parseInt_toString sixHours_def)
  have nav: "navigation loaded_task = Inr example_rendered"
    by (simp add: loaded_task_def)
  have nav': "navigation timeout_task = Inl ''Navigation timeout of 30000 ms exceeded''"
    by (simp add: timeout_task_def)
  obtain r2 where mark: "markUrlVisited ?u (t_mark loaded_task) (store start_run) = Inr r2"
    by (simp add: markUrlVisited_def hset_def)
  have f: "failures start_run = []" "crawledUrls start_run = []"
    by (simp_all add: start_run_def)
  have ok: "\<exists>s'. crawlUrl URL_href ''https://example.com'' loaded_task ?u start_run = Inr s' \<and>
      visited (store s') = visited r2 \<and> crawledUrls s' = [?u]"
    using crawlUrl_marks_visited_on_success
      [of ?u loaded_task start_run example_rendered r2 URL_href "''https://example.com''"]
      can nav mark f by simp
  have fail: "crawlUrl URL_href ''https://example.com'' timeout_task ?u start_run
      = Inr (start_run\<lparr>failures := [(?u, ''Navigation timeout of 30000 ms exceeded'')]\<rparr>)"
    using crawlUrl_marks_visited_on_success
      [of ?u timeout_task start_run _ _ URL_href "''https://example.com''"
        "''Navigation timeout of 30000 ms exceeded''"]
      can' nav' f by simp
  have skip: "crawlUrl URL_href ''https://example.com'' loaded_task ?u seeded_run = Inr seeded_run"
    using crawlUrl_marks_visited_on_success
      [of ?u loaded_task seeded_run _ _ URL_href "''https://example.com''"]
      cannot by simp
  show ?thesis using can nav mark ok nav' fail cannot skip by blast
qed

text \<open>The claim as written has the timestamp set on the failure path too; after a
  navigation that timed out the hash is as empty as before and the URL may be crawled at
  once.\<close>

theorem crawlUrl_failed_fetch_counterexample:
  "\<exists>s'. crawlUrl URL_href ''https://example.com'' timeout_task ''https://example.com/a'' start_run
          = Inr s' \<and>
        visited (store s') = Map.empty \<and>
        canCrawlUrl ''https://example.com/a'' (t_mark timeout_task) (store s') = Inr True"
  by (simp add: crawlUrl_def timeout_task_def start_run_def canCrawlUrl_def empty_redis_def)

section \<open>The Redis crawl route: the keys of the stored documents\<close>




lemma initializeUrls_index [simp]: "index (initializeUrls u r) = index r"
  by (simp add: initializeUrls_def)



section \<open>The example pages\<close>

lemmas dom_defs = select_def has_tag_def text_of_def selection_text_def

lemma example_rendered_reads:
  "title_text example_rendered = ''Home''"
  "body_text example_rendered = ''Welcomeabfrag''"
  "hrefs example_rendered = [Some ''/a'', Some ''https://other.site/b'', Some ''#frag'']"
  by (simp_all add: title_text_def body_text_def hrefs_def content_block_def dom_defs
      example_rendered_def)

lemma report_rendered_reads:
  "hrefs report_rendered = [Some ''/report.pdf'', Some ''/a#top'']"
  by (simp add: hrefs_def dom_defs report_rendered_def)

lemma example_html_reads:
  "page_title example_html = ''Home''"
  "page_description example_html = None"
  "page_text example_html = ''HomeHomeabfrag''"
  "page_headings example_html = [''Home'']"
  "page_anchors example_html =
     [(Some ''/a'', ''a''), (Some ''https://other.site/b'', ''b''), (Some ''#frag'', ''frag'')]"
  by (simp_all add: page_title_def page_description_def page_text_def page_headings_def
      page_anchors_def dom_defs example_html_def)

lemma heading_page_reads:
  "page_title (heading_page n) = ''Long''"
  "page_description (heading_page n) = None"
  "page_text (heading_page n) = ''Long'' @ replicate n CHR ''h''"
  "page_headings (heading_page n) = [replicate n CHR ''h'']"
  "page_anchors (heading_page n) = []"
  by (simp_all add: page_title_def page_description_def page_text_def page_headings_def
      page_anchors_def dom_defs heading_page_def)

section \<open>Outgoing links\<close>

lemma set_map_filter: "set (List.map_filter f xs) = {y. \<exists>x \<in> set xs. f x = Some y}"
  by (induction xs) (auto simp: List.map_filter_simps split: option.splits)

lemma extractLinks_iff:
  "l \<in> set (extractLinks R origin url page) \<longleftrightarrow>
     (\<exists>href. Some href \<in> set (hrefs page) \<and> href \<noteq> [] \<and> R href url = Some l \<and>
        prefix origin l \<and> CHR ''#'' \<notin> set l)"
  by (auto simp: extractLinks_def set_map_filter keepHref_def split: option.splits if_splits)

lemma resolveAnchor_Some:
  "resolveAnchor R base a = Some (l, t) \<longleftrightarrow>
     (\<exists>href. fst a = Some href \<and> href \<noteq> [] \<and> R href base = Some l \<and> t = trim (snd a))"
  by (cases "fst a") (auto simp: resolveAnchor_def split: option.splits)

lemma internalLinks_set:
  "(l, t) \<in> set (internalLinks R base p) \<longleftrightarrow>
     (\<exists>href label. (Some href, label) \<in> set (page_anchors p) \<and> href \<noteq> [] \<and>
        R href base = Some l \<and> t = trim label \<and> prefix base l)"
proof
  assume "(l, t) \<in> set (internalLinks R base p)"
  then obtain a where a: "a \<in> set (page_anchors p)" "resolveAnchor R base a = Some (l, t)"
    and pre: "prefix base l"
    by (auto simp: internalLinks_def set_map_filter)
  from a(2) obtain href where "fst a = Some href" "href \<noteq> []" "R href base = Some l"
    "t = trim (snd a)"
    unfolding resolveAnchor_Some by blast
  moreover have "(fst a, snd a) \<in> set (page_anchors p)" using a(1) by simp
  ultimately show "\<exists>href label. (Some href, label) \<in> set (page_anchors p) \<and> href \<noteq> [] \<and>
        R href base = Some l \<and> t = trim label \<and> prefix base l"
    using pre by metis
next
  assume "\<exists>href label. (Some href, label) \<in> set (page_anchors p) \<and> href \<noteq> [] \<and>
        R href base = Some l \<and> t = trim label \<and> prefix base l"
  then obtain href label where h: "(Some href, label) \<in> set (page_anchors p)" "href \<noteq> []"
    "R href base = Some l" "t = trim label" "prefix base l"
    by blast
  have "resolveAnchor R base (Some href, label) = Some (l, t)"
    unfolding resolveAnchor_Some using h by simp
  then show "(l, t) \<in> set (internalLinks R base p)"
    using h(1) h(5) by (auto simp: internalLinks_def set_map_filter)
qed

lemma extractPage_snd: "snd (extractPage R base url now p) = map fst (internalLinks R base p)"
  by (simp add: extractPage_def Let_def)

lemma extractPage_links_iff:
  "l \<in> set (snd (extractPage R base url now p)) \<longleftrightarrow>
     (\<exists>href label. (Some href, label) \<in> set (page_anchors p) \<and> href \<noteq> [] \<and>
        R href base = Some l \<and> prefix base l)"
proof -
  have "l \<in> set (snd (extractPage R base url now p)) \<longleftrightarrow>
      (\<exists>t. (l, t) \<in> set (internalLinks R base p))"
    unfolding extractPage_snd by force
  then show ?thesis unfolding internalLinks_set by blast
qed

lemmas url_defs = URL_href_def is_http_def scheme_of_def serialise_http_def origin_of_def
  after_scheme_def ends_host_def is_scheme_char_def is_alpha_def is_digit_def path_dir_def

lemma URL_href_a: "URL_href ''/a'' ''https://example.com/'' = Some ''https://example.com/a''"
  by (simp add: url_defs)

lemma URL_href_other:
  "URL_href ''https://other.site/b'' ''https://example.com/'' = Some ''https://other.site/b''"
  by (simp add: url_defs)

lemma URL_href_frag:
  "URL_href ''#frag'' ''https://example.com/'' = Some ''https://example.com/#frag''"
  by (simp add: url_defs)

lemma URL_href_pdf:
  "URL_href ''/report.pdf'' ''https://example.com/'' = Some ''https://example.com/report.pdf''"
  by (simp add: url_defs)

lemma URL_href_a_top:
  "URL_href ''/a#top'' ''https://example.com/'' = Some ''https://example.com/a#top''"
  by (simp add: url_defs)

text \<open>
  C3 (as amended). In the Redis crawl route the list of outgoing links holds exactly the
  resolutions, against the page's own URL, of the non-empty \<open>href\<close>s for which the URL
  parser succeeds and whose absolute URL starts with the origin string and contains no
  \<open>#\<close> at all; no denylist of extensions is applied. In the crawl-and-index route
  (\<open>crawlPage\<close> and \<open>fetchFallback\<close>) the \<open>href\<close>s are resolved against the constant base
  and the list holds exactly those absolute URLs that start with the base. On the origin
  \<open>https://example.com\<close> the anchors \<open>/a\<close>, \<open>https://other.site/b\<close> and \<open>#frag\<close> give the
  Redis crawl route exactly \<open>https://example.com/a\<close>.
\<close>

theorem outgoing_links:
  "(l \<in> set (extractLinks R origin url page) \<longleftrightarrow>
     (\<exists>href. Some href \<in> set (hrefs page) \<and> href \<noteq> [] \<and> R href url = Some l \<and>
        prefix origin l \<and> CHR ''#'' \<notin> set l)) \<and>
   (l \<in> set (snd (extractPage R base url now p)) \<longleftrightarrow>
     (\<exists>href label. (Some href, label) \<in> set (page_anchors p) \<and> href \<noteq> [] \<and>
        R href base = Some l \<and> prefix base l)) \<and>
   extractLinks URL_href ''https://example.com'' ''https://example.com/'' example_rendered
     = [''https://example.com/a'']"
proof -
  have "extractLinks URL_href ''https://example.com'' ''https://example.com/'' example_rendered
     = [''https://example.com/a'']"
    by (simp add: extractLinks_def example_rendered_reads List.map_filter_simps keepHref_def
        URL_href_a URL_href_other URL_href_frag)
  then show ?thesis
    using extractLinks_iff [of l R origin url page] extractPage_links_iff [of l R base url now p]
    by blast
qed

text \<open>The claim as written fails in both routes: the Redis crawl route keeps a link to a
  PDF file and drops \<open>/a#top\<close>, which is not a fragment-only reference; \<open>crawlPage\<close>, on
  the page of the example, keeps the fragment link as well.\<close>

theorem outgoing_links_counterexample:
  "extractLinks URL_href ''https://example.com'' ''https://example.com/'' report_rendered
     = [''https://example.com/report.pdf''] \<and>
   snd (extractPage URL_href ''https://example.com/'' ''https://example.com/''
      ''2026-01-01T00:00:00.000Z'' example_html)
     = [''https://example.com/a'', ''https://example.com/#frag'']"
  by (simp add: extractLinks_def keepHref_def extractPage_def Let_def internalLinks_def
      example_html_reads report_rendered_reads List.map_filter_simps resolveAnchor_def
      URL_href_a URL_href_other URL_href_frag URL_href_pdf URL_href_a_top)

section \<open>New and replaced entries\<close>

lemma saveToSearchIndex_to_crawl [simp]:
  "to_crawl (saveToSearchIndex u d r) = to_crawl r"
  by (simp add: saveToSearchIndex_def Let_def split: option.splits)








section \<open>The query route\<close>

lemma loadIndex_on_error: "tryLoadIndex f = Inl e \<Longrightarrow> loadIndex f = new_MiniSearch index_fields"
  by (simp add: loadIndex_def)

lemma loadIndex_invalid:
  "\<not> isArray (map_of kvs ''fields'') \<or> \<not> isArray (map_of kvs ''documents'') \<Longrightarrow>
     loadIndex (Parsed (JObj kvs)) = new_MiniSearch index_fields"
  by (auto simp: loadIndex_def tryLoadIndex_def split: sum.splits)

lemma loadIndex_not_object:
  "(\<And>kvs. j \<noteq> JObj kvs) \<Longrightarrow> loadIndex (Parsed j) = new_MiniSearch index_fields"
  by (cases j) (auto simp: loadIndex_def tryLoadIndex_def)

lemma documentCount_new [simp]: "documentCount (new_MiniSearch fs) = 0"
  by (simp add: documentCount_def new_MiniSearch_def)

lemma GET_search_empty:
  "loadIndex f = new_MiniSearch index_fields \<Longrightarrow> q \<noteq> [] \<Longrightarrow>
     GET_search S (Some q) f = NoDocumentsIndexed"
  by (simp add: GET_search_def Let_def)

text \<open>
  C5 (as amended). \<open>loadIndex\<close> never raises: when the snapshot cannot be read, is not
  JSON, is not an object, or lacks an array \<open>fields\<close> or an array \<open>documents\<close>, and on
  any other error of its \<open>try\<close> block, it returns a new, empty index. The request for a
  non-empty query is then answered with the handled 404 response \<open>No documents indexed\<close>:
  the query is not run against the empty index, and the response is neither a result list
  nor the 500 response.
\<close>

theorem loadIndex_falls_back_to_empty:
  "loadIndex (Unreadable m) = new_MiniSearch index_fields \<and>
   loadIndex (NotJSON m) = new_MiniSearch index_fields \<and>
   ((\<forall>kvs. j \<noteq> JObj kvs) \<longrightarrow> loadIndex (Parsed j) = new_MiniSearch index_fields) \<and>
   (\<not> isArray (map_of kvs ''fields'') \<or> \<not> isArray (map_of kvs ''documents'') \<longrightarrow>
      loadIndex (Parsed (JObj kvs)) = new_MiniSearch index_fields) \<and>
   (tryLoadIndex f = Inl e \<longrightarrow> loadIndex f = new_MiniSearch index_fields) \<and>
   documentCount (new_MiniSearch index_fields) = 0 \<and>
   (loadIndex f = new_MiniSearch index_fields \<and> q \<noteq> [] \<longrightarrow>
      GET_search S (Some q) f = NoDocumentsIndexed \<and>
      search_status (GET_search S (Some q) f) = 404)"
proof -
  have 1: "loadIndex (Unreadable m) = new_MiniSearch index_fields"
    and 2: "loadIndex (NotJSON m) = new_MiniSearch index_fields"
    by (simp_all add: loadIndex_def tryLoadIndex_def)
  have 3: "(\<forall>kvs. j \<noteq> JObj kvs) \<longrightarrow> loadIndex (Parsed j) = new_MiniSearch index_fields"
    using loadIndex_not_object [of j] by blast
  have 4: "\<not> isArray (map_of kvs ''fields'') \<or> \<not> isArray (map_of kvs ''documents'') \<longrightarrow>
      loadIndex (Parsed (JObj kvs)) = new_MiniSearch index_fields"
    using loadIndex_invalid [of kvs] by blast
  have 5: "tryLoadIndex f = Inl e \<longrightarrow> loadIndex f = new_MiniSearch index_fields"
    using loadIndex_on_error [of f e] by blast
  have 6: "loadIndex f = new_MiniSearch index_fields \<and> q \<noteq> [] \<longrightarrow>
      GET_search S (Some q) f = NoDocumentsIndexed \<and>
      search_status (GET_search S (Some q) f) = 404"
    using GET_search_empty [of f q S] by simp
  show ?thesis using 1 2 3 4 5 6 by simp
qed

theorem loadIndex_falls_back_to_empty_witness:
  "\<not> isArray (map_of [(''documents'', JArr [])] ''fields'') \<and>
   loadIndex (Parsed no_fields_snapshot) = new_MiniSearch index_fields \<and>
   tryLoadIndex (Parsed JNull) = Inl TypeError \<and>
   loadIndex (Parsed JNull) = new_MiniSearch index_fields \<and>
   ''oil'' \<noteq> [] \<and>
   GET_search title_search (Some ''oil'') (Parsed no_fields_snapshot) = NoDocumentsIndexed \<and>
   search_status (GET_search title_search (Some ''oil'') (Parsed no_fields_snapshot)) = 404"
proof -
  have a: "\<not> isArray (map_of [(''documents'', JArr [])] ''fields'')" by simp
  have b: "tryLoadIndex (Parsed JNull) = Inl TypeError" by (simp add: tryLoadIndex_def)
  have c: "\<forall>kvs. JNull \<noteq> JObj kvs" by simp
  from loadIndex_falls_back_to_empty
    [of "''ENOENT''" JNull "[(''documents'', JArr [])]" "Parsed JNull" TypeError "''oil''" title_search]
    a b c
  have l1: "loadIndex (Parsed no_fields_snapshot) = new_MiniSearch index_fields"
    and l2: "loadIndex (Parsed JNull) = new_MiniSearch index_fields"
    by (simp_all add: no_fields_snapshot_def)
  from loadIndex_falls_back_to_empty
    [of "''ENOENT''" JNull "[(''documents'', JArr [])]" "Parsed no_fields_snapshot" TypeError
      "''oil''" title_search] l1
  have "GET_search title_search (Some ''oil'') (Parsed no_fields_snapshot) = NoDocumentsIndexed \<and>
    search_status (GET_search title_search (Some ''oil'') (Parsed no_fields_snapshot)) = 404"
    by simp
  then show ?thesis using a b l1 l2 by simp
qed

text \<open>The claim as written has the request never failed by a missing or corrupt snapshot
  and the query served from the empty index (a result list); the response is the 404 error
  for a missing file and for a snapshot without \<open>fields\<close>.\<close>

theorem missing_snapshot_counterexample:
  "GET_search title_search (Some ''oil'') (Unreadable ''ENOENT: no such file or directory'')
     = NoDocumentsIndexed \<and>
   search_status
     (GET_search title_search (Some ''oil'') (Unreadable ''ENOENT: no such file or directory''))
     = 404 \<and>
   GET_search title_search (Some ''oil'') (Parsed no_fields_snapshot) = NoDocumentsIndexed"
  by (simp add: GET_search_def Let_def loadIndex_def tryLoadIndex_def no_fields_snapshot_def)

lemma loadIndex_one_document:
  "ms_documents (loadIndex (Parsed one_document_snapshot)) =
     [doc_json (fallbackDocument ''https://example.com/'' ''2026-01-01T00:00:00.000Z'')]"
  by (simp add: loadIndex_def tryLoadIndex_def one_document_snapshot_def ms_add_def has_id_def
      extract_id_def construct_MiniSearch_def new_MiniSearch_def index_fields_def
      field_throws_def doc_json_def fallbackDocument_def)

text \<open>
  C6. For a non-empty query, an index with no document gives the 404 response, never a
  list of results; the response is the empty list of results with status 200 only when
  the index has at least one document and the search finds none.
\<close>

theorem search_zero_documents:
  "q \<noteq> [] \<longrightarrow>
     (documentCount (loadIndex f) = 0 \<longrightarrow>
        GET_search S (Some q) f = NoDocumentsIndexed \<and>
        search_status (GET_search S (Some q) f) = 404) \<and>
     (GET_search S (Some q) f = Results [] \<longrightarrow>
        0 < documentCount (loadIndex f) \<and> S (loadIndex f) q = Inr [])"
  by (auto simp: GET_search_def Let_def split: sum.splits)

theorem search_zero_documents_witness:
  "''oil'' \<noteq> [] \<and>
   documentCount (loadIndex (Parsed no_fields_snapshot)) = 0 \<and>
   GET_search title_search (Some ''oil'') (Parsed no_fields_snapshot) = NoDocumentsIndexed \<and>
   GET_search title_search (Some ''oil'') (Parsed one_document_snapshot) = Results [] \<and>
   search_status (GET_search title_search (Some ''oil'') (Parsed one_document_snapshot)) = 200 \<and>
   documentCount (loadIndex (Parsed one_document_snapshot)) = 1 \<and>
   title_search (loadIndex (Parsed one_document_snapshot)) ''oil'' = Inr []"
proof -
  have z: "documentCount (loadIndex (Parsed no_fields_snapshot)) = 0"
    by (simp add: loadIndex_def tryLoadIndex_def no_fields_snapshot_def)
  have one: "documentCount (loadIndex (Parsed one_document_snapshot)) = 1"
    by (simp add: documentCount_def loadIndex_one_document)
  have none: "title_search (loadIndex (Parsed one_document_snapshot)) ''oil'' = Inr []"
    by (simp add: title_search_def loadIndex_one_document doc_json_def fallbackDocument_def)
  have r: "GET_search title_search (Some ''oil'') (Parsed one_document_snapshot) = Results []"
    using one none by (simp add: GET_search_def Let_def)
  show ?thesis
    using search_zero_documents [of "''oil''" "Parsed no_fields_snapshot" title_search]
      search_zero_documents [of "''oil''" "Parsed one_document_snapshot" title_search]
      z one none r
    by simp
qed

section \<open>The page fetcher\<close>

lemma fetch_headers_same: "fetch_headers = puppeteer_headers"
  by (simp add: fetch_headers_def puppeteer_headers_def)

lemma fetchFallback_request:
  "fetchFallback R base env url =
     ((case http_get env url puppeteer_headers of
         FetchFailed m \<Rightarrow> (None, [])
       | Fetched p \<Rightarrow> extractPage R base url (clock env url) p),
      [HttpGet url puppeteer_headers])"
  by (simp add: fetchFallback_def fetch_headers_same split: http_outcome.splits)

lemma attemptLoop_second:
  "attemptLoop R base env url 2 2 b =
     (case browse env url puppeteer_headers 2 of
        Rendered p \<Rightarrow> (Some (extractPage R base url (clock env url) p), [Attempt 2, Launch, Close])
      | AttemptFailed m \<Rightarrow>
          (Some (fst (fetchFallback R base env url)),
           [Attempt 2, Launch, HttpGet url puppeteer_headers, Close])
      | LaunchFailed m \<Rightarrow>
          (Some (fst (fetchFallback R base env url)),
           [Attempt 2, HttpGet url puppeteer_headers] @ (if b then [Close] else [])))"
  by (subst attemptLoop.simps) (simp add: fetchFallback_request split: attempt_outcome.splits)

lemma attemptLoop_first:
  "attemptLoop R base env url 2 1 False =
     (case browse env url puppeteer_headers 1 of
        Rendered p \<Rightarrow> (Some (extractPage R base url (clock env url) p), [Attempt 1, Launch, Close])
      | AttemptFailed m \<Rightarrow>
          if sublist ''ENOEXEC'' m
          then (Some (fst (fetchFallback R base env url)),
                [Attempt 1, Launch, HttpGet url puppeteer_headers, Close])
          else apsnd (\<lambda>ev. [Attempt 1, Launch, Wait 1000, Close] @ ev)
                 (attemptLoop R base env url 2 2 True)
      | LaunchFailed m \<Rightarrow>
          if sublist ''ENOEXEC'' m
          then (Some (fst (fetchFallback R base env url)), [Attempt 1, HttpGet url puppeteer_headers])
          else apsnd (\<lambda>ev. [Attempt 1, Wait 1000] @ ev) (attemptLoop R base env url 2 2 False))"
  by (subst attemptLoop.simps)
    (simp add: numeral_2_eq_2 fetchFallback_request split: attempt_outcome.splits)

text \<open>Whether the attempts of the browser end in the fallback, and the page they render
  otherwise.\<close>

lemma attemptLoop_props:
  assumes "attemptLoop R base env url 2 1 False = (result, ev)"
  shows "(\<exists>r. result = Some r) \<and>
     attempt_numbers ev =
       (if \<exists>m1. failure_message (browse env url puppeteer_headers 1) = Some m1 \<and>
              \<not> sublist ''ENOEXEC'' m1
        then [1, 2] else [1]) \<and>
     delayed 0 ev \<and> sessions_closed False ev \<and>
     (requests ev = [] \<or> requests ev = [(url, puppeteer_headers)]) \<and>
     (requests ev = [(url, puppeteer_headers)] \<longrightarrow>
        result = Some (fst (fetchFallback R base env url))) \<and>
     (requests ev = [] \<longrightarrow>
        (\<exists>p. (browse env url puppeteer_headers 1 = Rendered p \<or>
              browse env url puppeteer_headers 2 = Rendered p) \<and>
             result = Some (extractPage R base url (clock env url) p))) \<and>
     (requests ev = [(url, puppeteer_headers)] \<longleftrightarrow>
        (\<exists>m1. failure_message (browse env url puppeteer_headers 1) = Some m1 \<and>
           (sublist ''ENOEXEC'' m1 \<or>
            (\<exists>m2. failure_message (browse env url puppeteer_headers 2) = Some m2))))"
  using assms unfolding attemptLoop_first attemptLoop_second
  by (auto split: attempt_outcome.splits if_splits)

lemma extractPage_shape:
  "extractPage R base url now p = (doc, found) \<Longrightarrow> \<exists>d. doc = Some d \<and> d_id d = url"
  by (auto simp: extractPage_def Let_def)

lemma fetchFallback_shape:
  "fst (fetchFallback R base env url) = (doc, found) \<Longrightarrow>
     (doc = None \<and> found = []) \<or> (\<exists>d. doc = Some d \<and> d_id d = url)"
  by (auto simp: fetchFallback_def split: http_outcome.splits dest: extractPage_shape)

lemma attemptLoop_shape:
  assumes "attemptLoop R base env url 2 1 False = (result, ev)"
  shows "\<exists>doc found. result = Some (doc, found) \<and>
     ((doc = None \<and> found = []) \<or> (\<exists>d. doc = Some d \<and> d_id d = url))"
proof -
  have "result = Some (fst (fetchFallback R base env url)) \<or>
      (\<exists>p. result = Some (extractPage R base url (clock env url) p))"
    using attemptLoop_props [OF assms] by blast
  then show ?thesis
    using fetchFallback_shape [of R base env url] extractPage_shape [of R base url "clock env url"]
    by (metis surj_pair)
qed

lemma crawlPage_shape:
  assumes "crawlPage R base env url vis 2 = (result, vis', ev)"
  shows "\<exists>doc found. result = Some (doc, found) \<and>
     (if url \<in> set vis then doc = None \<and> found = [] \<and> vis' = vis
      else vis' = vis @ [url] \<and>
        ((doc = None \<and> found = []) \<or> (\<exists>d. doc = Some d \<and> d_id d = url)))"
proof (cases "url \<in> set vis")
  case True
  then show ?thesis using assms by (simp add: crawlPage_def)
next
  case False
  obtain r e where a: "attemptLoop R base env url 2 1 False = (r, e)"
    by (cases "attemptLoop R base env url 2 1 False")
  then have "result = r" "vis' = vis @ [url]" using assms False by (simp_all add: crawlPage_def)
  then show ?thesis using attemptLoop_shape [OF a] False by simp
qed

lemma crawlStep_Inr: "\<exists>st'. crawlStep R base env st = Inr st'"
proof -
  obtain result vis' ev where
    c: "crawlPage R base env (last (toCrawl st)) (visited_urls st) 2 = (result, vis', ev)"
    by (cases "crawlPage R base env (last (toCrawl st)) (visited_urls st) 2")
  from crawlPage_shape [OF c] obtain doc found where "result = Some (doc, found)" by blast
  then show ?thesis using c by (simp add: crawlStep_def Let_def)
qed

lemma crawlLoop_Inr: "\<exists>st'. crawlLoop R base env st = Inr st'"
proof (induction R base env st rule: crawlLoop.induct)
  case (1 R base env st)
  show ?case
  proof (cases "toCrawl st \<noteq> [] \<and> crawlCount st < maxCrawl")
    case True
    obtain st1 where s: "crawlStep R base env st = Inr st1" using crawlStep_Inr by blast
    from 1 [OF True s] obtain st' where "crawlLoop R base env st1 = Inr st'" by blast
    then show ?thesis using True s by (subst crawlLoop.simps) simp
  next
    case False
    then show ?thesis by (subst crawlLoop.simps) auto
  qed
qed

lemma not_enoexec_refused: "\<not> sublist ''ENOEXEC'' ''net::ERR_CONNECTION_REFUSED''"
  by (simp add: sublist_Cons_right)

lemma not_enoexec_timeout: "\<not> sublist ''ENOEXEC'' ''Navigation timeout of 120000 ms exceeded''"
  by (simp add: sublist_Cons_right)

lemma enoexec_spawn: "sublist ''ENOEXEC'' ''spawn ENOEXEC''"
  by (simp add: sublist_Cons_right)

lemma extractPage_example:
  "extractPage URL_href ''https://example.com/'' ''https://example.com/''
       ''2026-01-01T00:00:00.000Z'' example_html
     = (Some example_document, [''https://example.com/a'', ''https://example.com/#frag''])"
  by (simp add: extractPage_def Let_def example_html_reads example_document_def headings_of_def
      bodyContent_of_def trim_def collapse_ws_def is_space_def internalLinks_def
      List.map_filter_simps resolveAnchor_def URL_href_a URL_href_other URL_href_frag)

lemma crawlPage_unreachable:
  "crawlPage URL_href ''https://example.com/'' unreachable_site ''https://example.com/'' [] 2 =
     (Some (None, []), [''https://example.com/''],
      [Attempt 1, Launch, Wait 1000, Close, Attempt 2, Launch,
       HttpGet ''https://example.com/'' puppeteer_headers, Close])"
  unfolding crawlPage_def attemptLoop_first attemptLoop_second
  by (simp add: unreachable_site_def not_enoexec_refused fetchFallback_request)

lemma crawlPage_flaky:
  "crawlPage URL_href ''https://example.com/'' flaky_site ''https://example.com/'' [] 2 =
     (Some (Some example_document, [''https://example.com/a'', ''https://example.com/#frag'']),
      [''https://example.com/''],
      [Attempt 1, Launch, Wait 1000, Close, Attempt 2, Launch, Close])"
  unfolding crawlPage_def attemptLoop_first attemptLoop_second
  by (simp add: flaky_site_def not_enoexec_timeout extractPage_example)

lemma crawlPage_no_browser:
  "crawlPage URL_href ''https://example.com/'' no_browser_site ''https://example.com/'' [] 2 =
     (Some (Some example_document, [''https://example.com/a'', ''https://example.com/#frag'']),
      [''https://example.com/''],
      [Attempt 1, HttpGet ''https://example.com/'' puppeteer_headers])"
  unfolding crawlPage_def attemptLoop_first attemptLoop_second
  by (simp add: no_browser_site_def enoexec_spawn fetchFallback_request extractPage_example)

text \<open>
  C7. \<open>crawlPage\<close> with its two retries always returns a value. It makes at most two
  browser attempts, the second one only after a first that failed without \<open>ENOEXEC\<close> in
  its message, with a wait of 1000 ms between them, and closes every session it launched.
  It makes the plain HTTP request, once, to the same URL and with the headers of the
  browser session, exactly when the first attempt failed with a message that contains
  \<open>ENOEXEC\<close> or both attempts failed; then its result is what content extraction makes of
  the page the request returns, and the no-content value when the request fails too.
  Without the request the result is what content extraction makes of the page an attempt
  rendered. The loop of \<open>GET\<close> is never ended by an error of one URL.
\<close>

theorem crawlPage_retry_then_fallback:
  "crawlPage R base env url vis 2 = (result, vis', ev) \<longrightarrow>
     (\<exists>r. result = Some r) \<and>
     length (attempt_numbers ev) \<le> 2 \<and>
     delayed 0 ev \<and>
     sessions_closed False ev \<and>
     (requests ev = [] \<or> requests ev = [(url, puppeteer_headers)]) \<and>
     (requests ev = [(url, puppeteer_headers)] \<longrightarrow>
        result = Some (case http_get env url puppeteer_headers of
                         FetchFailed m \<Rightarrow> (None, [])
                       | Fetched p \<Rightarrow> extractPage R base url (clock env url) p)) \<and>
     (url \<notin> set vis \<longrightarrow>
        attempt_numbers ev =
          (if \<exists>m1. failure_message (browse env url puppeteer_headers 1) = Some m1 \<and>
                 \<not> sublist ''ENOEXEC'' m1
           then [1, 2] else [1]) \<and>
        (requests ev = [(url, puppeteer_headers)] \<longleftrightarrow>
           (\<exists>m1. failure_message (browse env url puppeteer_headers 1) = Some m1 \<and>
              (sublist ''ENOEXEC'' m1 \<or>
               (\<exists>m2. failure_message (browse env url puppeteer_headers 2) = Some m2)))) \<and>
        (requests ev = [] \<longrightarrow>
           (\<exists>p. (browse env url puppeteer_headers 1 = Rendered p \<or>
                 browse env url puppeteer_headers 2 = Rendered p) \<and>
                result = Some (extractPage R base url (clock env url) p)))) \<and>
     (url \<in> set vis \<longrightarrow> result = Some (None, []) \<and> ev = []) \<and>
     (\<exists>st'. crawlLoop R base env st = Inr st')"
proof (intro impI)
  assume c: "crawlPage R base env url vis 2 = (result, vis', ev)"
  let ?fallback = "case http_get env url puppeteer_headers of
                         FetchFailed m \<Rightarrow> (None, [])
                       | Fetched p \<Rightarrow> extractPage R base url (clock env url) p"
  have ff: "fst (fetchFallback R base env url) = ?fallback"
    by (simp add: fetchFallback_request)
  show "(\<exists>r. result = Some r) \<and>
     length (attempt_numbers ev) \<le> 2 \<and>
     delayed 0 ev \<and>
     sessions_closed False ev \<and>
     (requests ev = [] \<or> requests ev = [(url, puppeteer_headers)]) \<and>
     (requests ev = [(url, puppeteer_headers)] \<longrightarrow> result = Some ?fallback) \<and>
     (url \<notin> set vis \<longrightarrow>
        attempt_numbers ev =
          (if \<exists>m1. failure_message (browse env url puppeteer_headers 1) = Some m1 \<and>
                 \<not> sublist ''ENOEXEC'' m1
           then [1, 2] else [1]) \<and>
        (requests ev = [(url, puppeteer_headers)] \<longleftrightarrow>
           (\<exists>m1. failure_message (browse env url puppeteer_headers 1) = Some m1 \<and>
              (sublist ''ENOEXEC'' m1 \<or>
               (\<exists>m2. failure_message (browse env url puppeteer_headers 2) = Some m2)))) \<and>
        (requests ev = [] \<longrightarrow>
           (\<exists>p. (browse env url puppeteer_headers 1 = Rendered p \<or>
                 browse env url puppeteer_headers 2 = Rendered p) \<and>
                result = Some (extractPage R base url (clock env url) p)))) \<and>
     (url \<in> set vis \<longrightarrow> result = Some (None, []) \<and> ev = []) \<and>
     (\<exists>st'. crawlLoop R base env st = Inr st')"
  proof (cases "url \<in> set vis")
    case True
    then have "result = Some (None, [])" "ev = []" using c by (simp_all add: crawlPage_def)
    then show ?thesis using True crawlLoop_Inr [of R base env st] by simp
  next
    case False
    obtain r e where a: "attemptLoop R base env url 2 1 False = (r, e)"
      by (cases "attemptLoop R base env url 2 1 False")
    then have eq: "result = r" "ev = e" using c False by (simp_all add: crawlPage_def)
    note p = attemptLoop_props [OF a, unfolded ff, folded eq]
    have len: "length (attempt_numbers ev) \<le> 2"
      using p by (simp split: if_splits)
    show ?thesis using p len False crawlLoop_Inr [of R base env st] by blast
  qed
qed

theorem crawlPage_retry_then_fallback_witness:
  "crawlPage URL_href ''https://example.com/'' unreachable_site ''https://example.com/'' [] 2 =
     (Some (None, []), [''https://example.com/''],
      [Attempt 1, Launch, Wait 1000, Close, Attempt 2, Launch,
       HttpGet ''https://example.com/'' puppeteer_headers, Close]) \<and>
   failure_message (browse unreachable_site ''https://example.com/'' puppeteer_headers 1)
     = Some ''net::ERR_CONNECTION_REFUSED'' \<and>
   failure_message (browse unreachable_site ''https://example.com/'' puppeteer_headers 2)
     = Some ''net::ERR_CONNECTION_REFUSED'' \<and>
   http_get unreachable_site ''https://example.com/'' puppeteer_headers
     = FetchFailed ''connect ECONNREFUSED'' \<and>
   attempt_numbers [Attempt 1, Launch, Wait 1000, Close, Attempt 2, Launch,
       HttpGet ''https://example.com/'' puppeteer_headers, Close] = [1, 2] \<and>
   delayed 0 [Attempt 1, Launch, Wait 1000, Close, Attempt 2, Launch,
       HttpGet ''https://example.com/'' puppeteer_headers, Close] \<and>
   sessions_closed False [Attempt 1, Launch, Wait 1000, Close, Attempt 2, Launch,
       HttpGet ''https://example.com/'' puppeteer_headers, Close] \<and>
   requests [Attempt 1, Launch, Wait 1000, Close, Attempt 2, Launch,
       HttpGet ''https://example.com/'' puppeteer_headers, Close]
     = [(''https://example.com/'', puppeteer_headers)] \<and>
   crawlPage URL_href ''https://example.com/'' no_browser_site ''https://example.com/'' [] 2 =
     (Some (Some example_document, [''https://example.com/a'', ''https://example.com/#frag'']),
      [''https://example.com/''],
      [Attempt 1, HttpGet ''https://example.com/'' puppeteer_headers]) \<and>
   failure_message (browse no_browser_site ''https://example.com/'' puppeteer_headers 1)
     = Some ''spawn ENOEXEC'' \<and>
   http_get no_browser_site ''https://example.com/'' puppeteer_headers = Fetched example_html \<and>
   extractPage URL_href ''https://example.com/'' ''https://example.com/''
       (clock no_browser_site ''https://example.com/'') example_html
     = (Some example_document, [''https://example.com/a'', ''https://example.com/#frag'']) \<and>
   crawlPage URL_href ''https://example.com/'' flaky_site ''https://example.com/'' [] 2 =
     (Some (Some example_document, [''https://example.com/a'', ''https://example.com/#frag'']),
      [''https://example.com/''],
      [Attempt 1, Launch, Wait 1000, Close, Attempt 2, Launch, Close]) \<and>
   browse flaky_site ''https://example.com/'' puppeteer_headers 2 = Rendered example_html \<and>
   requests [Attempt 1, Launch, Wait 1000, Close, Attempt 2, Launch, Close] = [] \<and>
   crawlPage URL_href ''https://example.com/'' flaky_site ''https://example.com/''
       [''https://example.com/''] 2
     = (Some (None, []), [''https://example.com/''], []) \<and>
   (\<exists>st'. crawlLoop URL_href ''https://example.com/'' unreachable_site
        (initial_vars ''https://example.com/'') = Inr st')"
proof -
  let ?B = "''https://example.com/''"
  let ?ev1 = "[Attempt 1, Launch, Wait 1000, Close, Attempt 2, Launch,
       HttpGet ?B puppeteer_headers, Close]"
  let ?ev2 = "[Attempt 1, HttpGet ?B puppeteer_headers]"
  let ?ev3 = "[Attempt 1, Launch, Wait 1000, Close, Attempt 2, Launch, Close]"
  let ?found = "[''https://example.com/a'', ''https://example.com/#frag'']"
  note down = crawlPage_retry_then_fallback
      [of URL_href ?B unreachable_site ?B "[]" "Some (None, [])" "[?B]" ?ev1 "initial_vars ?B",
        THEN mp, OF crawlPage_unreachable]
  note fallen = crawlPage_retry_then_fallback
      [of URL_href ?B no_browser_site ?B "[]" "Some (Some example_document, ?found)" "[?B]" ?ev2
        "initial_vars ?B", THEN mp, OF crawlPage_no_browser]
  note second = crawlPage_retry_then_fallback
      [of URL_href ?B flaky_site ?B "[]" "Some (Some example_document, ?found)" "[?B]" ?ev3
        "initial_vars ?B", THEN mp, OF crawlPage_flaky]
  have f1: "failure_message (browse unreachable_site ?B puppeteer_headers 1)
      = Some ''net::ERR_CONNECTION_REFUSED''"
    "failure_message (browse unreachable_site ?B puppeteer_headers 2)
      = Some ''net::ERR_CONNECTION_REFUSED''"
    "http_get unreachable_site ?B puppeteer_headers = FetchFailed ''connect ECONNREFUSED''"
    by (simp_all add: unreachable_site_def)
  have f2: "failure_message (browse no_browser_site ?B puppeteer_headers 1) = Some ''spawn ENOEXEC''"
    "http_get no_browser_site ?B puppeteer_headers = Fetched example_html"
    by (simp_all add: no_browser_site_def)
  have f3: "browse flaky_site ?B puppeteer_headers 2 = Rendered example_html"
    "failure_message (browse flaky_site ?B puppeteer_headers 1)
      = Some ''Navigation timeout of 120000 ms exceeded''"
    by (simp_all add: flaky_site_def)
  have n1: "attempt_numbers ?ev1 = [1, 2]"
    using down f1 not_enoexec_refused by simp
  have d1: "delayed 0 ?ev1" "sessions_closed False ?ev1"
    using down by blast+
  have r1: "requests ?ev1 = [(?B, puppeteer_headers)]"
    using down f1 by simp
  have stay: "\<exists>st'. crawlLoop URL_href ?B unreachable_site (initial_vars ?B) = Inr st'"
    using down by blast
  have r2: "requests ?ev2 = [(?B, puppeteer_headers)]"
    using fallen f2 enoexec_spawn by simp
  then have "Some (Some example_document, ?found) =
      Some (case http_get no_browser_site ?B puppeteer_headers of
              FetchFailed m \<Rightarrow> (None, [])
            | Fetched p \<Rightarrow> extractPage URL_href ?B ?B (clock no_browser_site ?B) p)"
    using fallen by blast
  then have x2: "extractPage URL_href ?B ?B (clock no_browser_site ?B) example_html
      = (Some example_document, ?found)"
    using f2 by simp
  have r3: "requests ?ev3 = []"
    using second f3 not_enoexec_timeout by simp
  obtain result vis' ev where again:
    "crawlPage URL_href ?B flaky_site ?B [?B] 2 = (result, vis', ev)"
    by (cases "crawlPage URL_href ?B flaky_site ?B [?B] 2")
  have "vis' = [?B]" using again by (simp add: crawlPage_def)
  moreover have "result = Some (None, []) \<and> ev = []"
    using crawlPage_retry_then_fallback
      [of URL_href ?B flaky_site ?B "[?B]" result vis' ev "initial_vars ?B", THEN mp, OF again]
    by simp
  ultimately have skipped:
    "crawlPage URL_href ?B flaky_site ?B [?B] 2 = (Some (None, []), [?B], [])"
    using again by simp
  show ?thesis
    using crawlPage_unreachable f1 n1 d1 r1 crawlPage_no_browser f2 x2 crawlPage_flaky f3(1) r3
      skipped stay
    by (intro conjI) assumption+
qed

section \<open>The content of the documents\<close>

lemma bodyContent_bound: "length (bodyContent_of p) \<le> 100000"
  by (simp add: bodyContent_of_def Let_def)

lemma extractPage_content:
  "fst (extractPage R base url now p) = Some d \<Longrightarrow>
     d_content d = headings_of p @ '' '' @ bodyContent_of p"
  by (auto simp: extractPage_def Let_def)

text \<open>The document of \<open>crawlPage\<close> is made of a page that an attempt rendered or that the
  plain request returned.\<close>

lemma crawlPage_document_page:
  assumes "crawlPage R base env url vis 2 = (Some (Some d, ls), vis', ev)"
  shows "\<exists>q. (browse env url puppeteer_headers 1 = Rendered q \<or>
              browse env url puppeteer_headers 2 = Rendered q \<or>
              http_get env url puppeteer_headers = Fetched q) \<and>
             extractPage R base url (clock env url) q = (Some d, ls)"
proof -
  have nv: "url \<notin> set vis" using assms by (auto simp: crawlPage_def split: if_splits)
  obtain r e where a: "attemptLoop R base env url 2 1 False = (r, e)"
    by (cases "attemptLoop R base env url 2 1 False")
  then have r: "r = Some (Some d, ls)" using assms nv by (simp add: crawlPage_def)
  note p = attemptLoop_props [OF a]
  from p have "requests e = [] \<or> requests e = [(url, puppeteer_headers)]" by blast
  then show ?thesis
  proof
    assume "requests e = []"
    then show ?thesis using p r by force
  next
    assume "requests e = [(url, puppeteer_headers)]"
    then have "fst (fetchFallback R base env url) = (Some d, ls)" using p r by simp
    then show ?thesis
      by (cases "http_get env url puppeteer_headers") (auto simp: fetchFallback_request)
  qed
qed

text \<open>White space: a text without any is left as it is.\<close>

lemma collapse_from_no_space: "\<forall>c \<in> set s. \<not> is_space c \<Longrightarrow> collapse_from b s = s"
  by (induction s arbitrary: b) simp_all

lemma dropWhile_no_space: "\<forall>c \<in> set s. \<not> is_space c \<Longrightarrow> dropWhile is_space s = s"
  by (cases s) simp_all

lemma trim_no_space: "\<forall>c \<in> set s. \<not> is_space c \<Longrightarrow> trim s = s"
  by (simp add: trim_def dropWhile_no_space)

lemma heading_page_text_no_space:
  "\<forall>c \<in> set (''Long'' @ replicate n CHR ''h''). \<not> is_space c"
  by (auto simp: is_space_def)

lemma heading_page_content:
  "extractPage R base url now (heading_page n) =
     (Some \<lparr>d_id = url, d_title = ''Long'', d_description = [],
            d_content = replicate n CHR ''h'' @ '' '' @ take 100000 (''Long'' @ replicate n CHR ''h''),
            d_url = url, d_links = [], d_lastCrawled = now\<rparr>, [])"
proof -
  have "trim (collapse_ws (''Long'' @ replicate n CHR ''h'')) = ''Long'' @ replicate n CHR ''h''"
    using heading_page_text_no_space [of n]
    by (simp only: collapse_ws_def collapse_from_no_space trim_no_space)
  then have "bodyContent_of (heading_page n) = take 100000 (''Long'' @ replicate n CHR ''h'')"
    by (simp add: bodyContent_of_def Let_def heading_page_reads)
  then show ?thesis
    by (simp add: extractPage_def Let_def heading_page_reads headings_of_def internalLinks_def
        List.map_filter_simps)
qed

lemma heading_page_length:
  "\<exists>d. fst (extractPage R base url now (heading_page n)) = Some d \<and>
       length (d_content d) = n + 1 + min (n + 4) 100000"
  by (simp add: heading_page_content min_def)

lemma crawlPage_heading_site:
  "crawlPage R base (heading_site n) url [] 2 =
     (Some (extractPage R base url ''2026-01-01T00:00:00.000Z'' (heading_page n)), [url],
      [Attempt 1, Launch, Close])"
  unfolding crawlPage_def attemptLoop_first by (simp add: heading_site_def)

text \<open>
  C4 (as amended). The \<open>content\<close> of every document that content extraction produces,
  in \<open>crawlPage\<close> and in \<open>fetchFallback\<close>, is the headings text, one space and the body
  text of the page fetched; the body text has at most 100000 code units, and the headings
  text is not truncated, so \<open>content\<close> has at most 100001 code units more than the
  headings text and no bound of its own: a page whose one heading has \<open>n\<close> code units
  gives a document whose \<open>content\<close> has more than \<open>n\<close>.
\<close>

theorem content_length:
  "(fst (extractPage R base url now p) = Some d \<longrightarrow>
      d_content d = headings_of p @ '' '' @ bodyContent_of p \<and>
      length (d_content d) \<le> length (headings_of p) + 100001) \<and>
   length (bodyContent_of p) \<le> 100000 \<and>
   (crawlPage R base env url vis 2 = (Some (Some d', ls), vis', ev) \<longrightarrow>
      (\<exists>q. (browse env url puppeteer_headers 1 = Rendered q \<or>
            browse env url puppeteer_headers 2 = Rendered q \<or>
            http_get env url puppeteer_headers = Fetched q) \<and>
           d_content d' = headings_of q @ '' '' @ bodyContent_of q \<and>
           length (d_content d') \<le> length (headings_of q) + 100001)) \<and>
   (\<exists>d ls. crawlPage R base (heading_site n) url [] 2
              = (Some (Some d, ls), [url], [Attempt 1, Launch, Close]) \<and>
           length (d_content d) = n + 1 + min (n + 4) 100000)"
proof -
  have a: "fst (extractPage R base url now p) = Some d \<longrightarrow>
      d_content d = headings_of p @ '' '' @ bodyContent_of p \<and>
      length (d_content d) \<le> length (headings_of p) + 100001"
    using extractPage_content [of R base url now p d] bodyContent_bound [of p] by auto
  have b: "crawlPage R base env url vis 2 = (Some (Some d', ls), vis', ev) \<longrightarrow>
      (\<exists>q. (browse env url puppeteer_headers 1 = Rendered q \<or>
            browse env url puppeteer_headers 2 = Rendered q \<or>
            http_get env url puppeteer_headers = Fetched q) \<and>
           d_content d' = headings_of q @ '' '' @ bodyContent_of q \<and>
           length (d_content d') \<le> length (headings_of q) + 100001)"
  proof
    assume "crawlPage R base env url vis 2 = (Some (Some d', ls), vis', ev)"
    from crawlPage_document_page [OF this] obtain q where
      q: "browse env url puppeteer_headers 1 = Rendered q \<or>
          browse env url puppeteer_headers 2 = Rendered q \<or>
          http_get env url puppeteer_headers = Fetched q"
      and x: "extractPage R base url (clock env url) q = (Some d', ls)" by blast
    have "d_content d' = headings_of q @ '' '' @ bodyContent_of q"
      using extractPage_content [of R base url "clock env url" q d'] x by simp
    then show "\<exists>q. (browse env url puppeteer_headers 1 = Rendered q \<or>
            browse env url puppeteer_headers 2 = Rendered q \<or>
            http_get env url puppeteer_headers = Fetched q) \<and>
           d_content d' = headings_of q @ '' '' @ bodyContent_of q \<and>
           length (d_content d') \<le> length (headings_of q) + 100001"
      using q bodyContent_bound [of q] by (intro exI [of _ q]) simp
  qed
  have c: "\<exists>d ls. crawlPage R base (heading_site n) url [] 2
              = (Some (Some d, ls), [url], [Attempt 1, Launch, Close]) \<and>
           length (d_content d) = n + 1 + min (n + 4) 100000"
    by (simp add: crawlPage_heading_site heading_page_content min_def)
  show ?thesis using a b c bodyContent_bound [of p] by blast
qed

theorem content_length_witness:
  "fst (extractPage URL_href ''https://example.com/'' ''https://example.com/''
       ''2026-01-01T00:00:00.000Z'' example_html) = Some example_document \<and>
   d_content example_document = headings_of example_html @ '' '' @ bodyContent_of example_html \<and>
   length (bodyContent_of example_html) \<le> 100000 \<and>
   length (d_content example_document) \<le> length (headings_of example_html) + 100001 \<and>
   crawlPage URL_href ''https://example.com/'' flaky_site ''https://example.com/'' [] 2 =
     (Some (Some example_document, [''https://example.com/a'', ''https://example.com/#frag'']),
      [''https://example.com/''],
      [Attempt 1, Launch, Wait 1000, Close, Attempt 2, Launch, Close]) \<and>
   (\<exists>q. (browse flaky_site ''https://example.com/'' puppeteer_headers 1 = Rendered q \<or>
         browse flaky_site ''https://example.com/'' puppeteer_headers 2 = Rendered q \<or>
         http_get flaky_site ''https://example.com/'' puppeteer_headers = Fetched q) \<and>
        d_content example_document = headings_of q @ '' '' @ bodyContent_of q) \<and>
   (\<exists>d ls. crawlPage URL_href ''https://example.com/'' (heading_site 3) ''https://example.com/'' [] 2
              = (Some (Some d, ls), [''https://example.com/''], [Attempt 1, Launch, Close]) \<and>
           length (d_content d) = 11)"
proof -
  let ?B = "''https://example.com/''"
  note t = content_length [of URL_href ?B ?B "''2026-01-01T00:00:00.000Z''" example_html
      example_document flaky_site "[]" example_document
      "[''https://example.com/a'', ''https://example.com/#frag'']" "[''https://example.com/'']"
      "[Attempt 1, Launch, Wait 1000, Close, Attempt 2, Launch, Close]" 3]
  have x: "fst (extractPage URL_href ?B ?B ''2026-01-01T00:00:00.000Z'' example_html)
      = Some example_document"
    by (simp add: extractPage_example)
  have one: "d_content example_document = headings_of example_html @ '' '' @ bodyContent_of example_html"
      "length (d_content example_document) \<le> length (headings_of example_html) + 100001"
    using t [THEN conjunct1] x by blast+
  have two: "length (bodyContent_of example_html) \<le> 100000"
    using t [THEN conjunct2, THEN conjunct1] .
  have three: "\<exists>q. (browse flaky_site ?B puppeteer_headers 1 = Rendered q \<or>
         browse flaky_site ?B puppeteer_headers 2 = Rendered q \<or>
         http_get flaky_site ?B puppeteer_headers = Fetched q) \<and>
        d_content example_document = headings_of q @ '' '' @ bodyContent_of q"
    using t [THEN conjunct2, THEN conjunct2, THEN conjunct1] crawlPage_flaky by blast
  have four: "\<exists>d ls. crawlPage URL_href ?B (heading_site 3) ?B [] 2
              = (Some (Some d, ls), [?B], [Attempt 1, Launch, Close]) \<and>
           length (d_content d) = 11"
    using t [THEN conjunct2, THEN conjunct2, THEN conjunct2] by simp
  show ?thesis
    using x one two crawlPage_flaky three four by (intro conjI) assumption+
qed

text \<open>The claim as written bounds the whole of \<open>content\<close> by 100000; the page with one
  heading of 100000 code units gives a document whose \<open>content\<close> has 200001.\<close>

theorem content_length_counterexample:
  "map_option (\<lambda>d. length (d_content d))
     (fst (extractPage URL_href BASE_URL BASE_URL ''2026-01-01T00:00:00.000Z''
        (heading_page 100000)))
   = Some 200001"
  by (simp add: heading_page_content)

section \<open>Indexing\<close>

lemma ms_add_None:
  "ms_add d ms = (ms', None) \<Longrightarrow> ms' = ms\<lparr>ms_documents := ms_documents ms @ [d]\<rparr>"
  by (auto simp: ms_add_def split: sum.splits if_splits)

lemma ms_addAll_success:
  "ms_addAll js ms = (ms', None) \<Longrightarrow> ms' = ms\<lparr>ms_documents := ms_documents ms @ js\<rparr>"
proof (induction js arbitrary: ms)
  case Nil
  then show ?case by simp
next
  case (Cons j js)
  then obtain ms1 where a: "ms_add j ms = (ms1, None)" and r: "ms_addAll js ms1 = (ms', None)"
    by (auto split: prod.splits option.splits)
  from Cons.IH [OF r] ms_add_None [OF a] show ?case by simp
qed

lemma extract_id_doc_json [simp]: "extract_id (doc_json d) = Inr (JStr (d_id d))"
  by (simp add: doc_json_def extract_id_def)

lemma has_id_member:
  "doc_json d \<in> set (ms_documents ms) \<Longrightarrow> has_id ms (JStr (d_id d))"
  by (auto simp: has_id_def list_ex_iff intro!: bexI [of _ "doc_json d"])

lemma ms_addAll_duplicate:
  "has_id ms (JStr (d_id d)) \<Longrightarrow>
     ms_addAll (map doc_json (d # ds)) ms = (ms, Some (DuplicateId (JStr (d_id d))))"
  by (simp add: ms_add_def)

lemma has_id_snoc:
  "has_id (ms\<lparr>ms_documents := ms_documents ms @ [doc_json d]\<rparr>) (JStr i) \<longleftrightarrow>
     has_id ms (JStr i) \<or> i = d_id d"
  by (auto simp: has_id_def)

text \<open>The fields of a document of the route are strings, so indexing one throws only for
  a field name that cannot be converted.\<close>

lemma field_throws_doc_json: "field_throws (doc_json d) f \<longleftrightarrow> to_string f = None"
  by (auto simp: field_throws_def doc_json_def split: option.splits if_splits)

lemma ms_addAll_distinct:
  "distinct (map d_id ds) \<Longrightarrow> list_all (\<lambda>d. \<not> has_id ms (JStr (d_id d))) ds \<Longrightarrow>
   \<not> list_ex (\<lambda>f. to_string f = None) (ms_fields ms) \<Longrightarrow>
     ms_addAll (map doc_json ds) ms = (ms\<lparr>ms_documents := ms_documents ms @ map doc_json ds\<rparr>, None)"
proof (induction ds arbitrary: ms)
  case Nil
  then show ?case by simp
next
  case (Cons d ds)
  let ?ms1 = "ms\<lparr>ms_documents := ms_documents ms @ [doc_json d]\<rparr>"
  have a: "ms_add (doc_json d) ms = (?ms1, None)"
    using Cons.prems(2,3) by (simp add: ms_add_def field_throws_doc_json list_ex_iff)
  have fs: "\<not> list_ex (\<lambda>f. to_string f = None) (ms_fields ?ms1)"
    using Cons.prems(3) by simp
  have "list_all (\<lambda>x. \<not> has_id ?ms1 (JStr (d_id x))) ds"
    unfolding list_all_iff has_id_snoc
  proof
    fix x assume x: "x \<in> set ds"
    then have "d_id x \<in> d_id ` set ds" by (rule imageI)
    moreover have "d_id d \<notin> d_id ` set ds" using Cons.prems(1) by simp
    ultimately have "d_id x \<noteq> d_id d" by metis
    moreover have "\<not> has_id ms (JStr (d_id x))" using Cons.prems(2) x by (simp add: list_all_iff)
    ultimately show "\<not> (has_id ms (JStr (d_id x)) \<or> d_id x = d_id d)" by simp
  qed
  from Cons.IH [OF _ this fs] Cons.prems(1) a show ?case by simp
qed

lemma has_id_new [simp]: "\<not> has_id (new_MiniSearch fs) i"
  by (simp add: has_id_def new_MiniSearch_def)

lemma crawlLoop_invariant:
  "crawlLoop R base env st = Inr st' \<Longrightarrow> P st \<Longrightarrow>
     (\<forall>s s'. P s \<longrightarrow> toCrawl s \<noteq> [] \<longrightarrow> crawlStep R base env s = Inr s' \<longrightarrow> P s') \<Longrightarrow>
     P st'"
proof (induction R base env st rule: crawlLoop.induct)
  case (1 R base env st)
  show ?case
  proof (cases "toCrawl st \<noteq> [] \<and> crawlCount st < maxCrawl")
    case True
    obtain st1 where s: "crawlStep R base env st = Inr st1" using crawlStep_Inr by blast
    have l: "crawlLoop R base env st1 = Inr st'"
      using "1.prems"(1) True s by (subst (asm) crawlLoop.simps) simp
    have p: "P st1" using "1.prems"(2,3) s True by blast
    show ?thesis using "1.IH" [OF True s l p "1.prems"(3)] .
  next
    case False
    then have "st' = st" using "1.prems"(1) by (subst (asm) crawlLoop.simps) auto
    then show ?thesis using "1.prems"(2) by simp
  qed
qed

lemma crawlStep_documents:
  assumes "crawlStep R base env st = Inr st'"
  shows "set (visited_urls st) \<subseteq> set (visited_urls st') \<and>
     (documents st' = documents st \<or>
      (\<exists>d. documents st' = documents st @ [d] \<and> d_id d \<notin> set (visited_urls st) \<and>
         d_id d \<in> set (visited_urls st')))"
proof -
  obtain result vis' ev where c:
    "crawlPage R base env (last (toCrawl st)) (visited_urls st) 2 = (result, vis', ev)"
    by (cases "crawlPage R base env (last (toCrawl st)) (visited_urls st) 2")
  from crawlPage_shape [OF c] obtain doc found where r: "result = Some (doc, found)"
    and sh: "if last (toCrawl st) \<in> set (visited_urls st)
       then doc = None \<and> found = [] \<and> vis' = visited_urls st
       else vis' = visited_urls st @ [last (toCrawl st)] \<and>
         ((doc = None \<and> found = []) \<or> (\<exists>d. doc = Some d \<and> d_id d = last (toCrawl st)))"
    by blast
  have v: "visited_urls st' = vis'"
    and d: "documents st' = (case doc of Some d \<Rightarrow> documents st @ [d] | None \<Rightarrow> documents st)"
    using assms c r by (auto simp: crawlStep_def Let_def)
  show ?thesis
  proof (cases doc)
    case None
    then show ?thesis using v d sh by (auto split: if_splits)
  next
    case (Some x)
    then show ?thesis using v d sh by (auto split: if_splits)
  qed
qed

lemma crawlLoop_distinct:
  assumes "crawlLoop R base env (initial_vars base) = Inr st"
  shows "distinct (map d_id (documents st))"
proof -
  let ?P = "\<lambda>s. distinct (map d_id (documents s)) \<and> d_id ` set (documents s) \<subseteq> set (visited_urls s)"
  have step: "\<forall>s s'. ?P s \<longrightarrow> toCrawl s \<noteq> [] \<longrightarrow> crawlStep R base env s = Inr s' \<longrightarrow> ?P s'"
  proof (intro allI impI)
    fix s s'
    assume p: "?P s" and st: "crawlStep R base env s = Inr s'"
    from crawlStep_documents [OF st]
    have sub: "set (visited_urls s) \<subseteq> set (visited_urls s')"
      and alt: "documents s' = documents s \<or>
        (\<exists>d. documents s' = documents s @ [d] \<and> d_id d \<notin> set (visited_urls s) \<and>
           d_id d \<in> set (visited_urls s'))"
      by blast+
    from alt show "?P s'"
    proof
      assume "documents s' = documents s"
      then show ?thesis using p sub by auto
    next
      assume "\<exists>d. documents s' = documents s @ [d] \<and> d_id d \<notin> set (visited_urls s) \<and>
           d_id d \<in> set (visited_urls s')"
      then obtain d where d: "documents s' = documents s @ [d]"
        "d_id d \<notin> set (visited_urls s)" "d_id d \<in> set (visited_urls s')"
        by blast
      have "d_id d \<notin> d_id ` set (documents s)" using p d(2) by blast
      moreover have "d_id ` set (documents s') \<subseteq> set (visited_urls s')"
        using p sub d(1) d(3) by auto
      ultimately show ?thesis using p d(1) by simp
    qed
  qed
  have "?P (initial_vars base)" by (simp add: initial_vars_def)
  from crawlLoop_invariant [where P = ?P, OF assms this step] show ?thesis by simp
qed

lemma crawlStep_first:
  assumes "crawlStep R base env (initial_vars base) = Inr st1"
  shows "(\<exists>d ds. documents st1 = d # ds \<and> d_id d = base) \<or> (documents st1 = [] \<and> toCrawl st1 = [])"
proof -
  obtain result vis' ev where c: "crawlPage R base env base [] 2 = (result, vis', ev)"
    by (cases "crawlPage R base env base [] 2")
  from crawlPage_shape [OF c] obtain doc found where r: "result = Some (doc, found)"
    and sh: "(doc = None \<and> found = []) \<or> (\<exists>d. doc = Some d \<and> d_id d = base)"
    by auto
  have d: "documents st1 = (case doc of Some d \<Rightarrow> [d] | None \<Rightarrow> [])"
    and t: "toCrawl st1 = enqueue vis' [] found"
    using assms c r by (auto simp: crawlStep_def Let_def initial_vars_def split: option.splits)
  from sh show ?thesis
  proof
    assume "doc = None \<and> found = []"
    then show ?thesis using d t by (simp add: enqueue_def)
  next
    assume "\<exists>d. doc = Some d \<and> d_id d = base"
    then show ?thesis using d by auto
  qed
qed

lemma crawlLoop_first_document:
  assumes "crawlLoop R base env (initial_vars base) = Inr st"
  shows "\<exists>d ds. documentsToIndex base env st = d # ds \<and> d_id d = base"
proof -
  let ?Q = "\<lambda>s. (\<exists>d ds. documents s = d # ds \<and> d_id d = base) \<or> (documents s = [] \<and> toCrawl s = [])"
  obtain st1 where s1: "crawlStep R base env (initial_vars base) = Inr st1"
    using crawlStep_Inr by blast
  have l: "crawlLoop R base env st1 = Inr st"
    using assms s1 by (subst (asm) crawlLoop.simps) (simp add: initial_vars_def maxCrawl_def)
  have q1: "?Q st1" using crawlStep_first [OF s1] .
  have step: "\<forall>s s'. ?Q s \<longrightarrow> toCrawl s \<noteq> [] \<longrightarrow> crawlStep R base env s = Inr s' \<longrightarrow> ?Q s'"
  proof (intro allI impI)
    fix s s'
    assume q: "?Q s" and t: "toCrawl s \<noteq> []" and st: "crawlStep R base env s = Inr s'"
    from q t obtain d ds where d: "documents s = d # ds" "d_id d = base" by blast
    from crawlStep_documents [OF st]
    have "documents s' = documents s \<or> (\<exists>x. documents s' = documents s @ [x])" by blast
    then show "?Q s'" using d by auto
  qed
  have "?Q st" using crawlLoop_invariant [where P = ?Q, OF l q1 step] .
  then show ?thesis
    by (auto simp: documentsToIndex_def fallbackDocument_def)
qed

lemma documentsToIndex_nonempty: "documentsToIndex base env st \<noteq> []"
  by (simp add: documentsToIndex_def)

lemma documentsToIndex_distinct:
  "distinct (map d_id (documents st)) \<Longrightarrow> distinct (map d_id (documentsToIndex base env st))"
  by (simp add: documentsToIndex_def)

lemma snapshot_json_eq:
  "snapshot_json ms ds = JObj [(''fields'', JArr index_fields), (''documents'', JArr (map doc_json ds))]"
  by (simp add: snapshot_json_def toJSON_documents_def)

lemma indexDocuments_cases:
  assumes "indexDocuments base env d st route = (route', resp)"
  shows "(\<exists>e. resp = FailedToIndex e \<and> index_file route' = index_file route) \<or>
     (\<exists>m. resp = FailedToSave m (failedUrls st) \<and>
        (index_file route' = index_file route \<or>
         index_file route' = Parsed (snapshot_json (miniSearch route') (documentsToIndex base env st)))) \<or>
     (resp = Indexed (documentsToIndex base env st) (failedUrls st) \<and>
        index_file route' = Parsed (snapshot_json (miniSearch route') (documentsToIndex base env st)) \<and>
        miniSearch route' = (miniSearch route)\<lparr>ms_documents := ms_documents (miniSearch route) @
           map doc_json (documentsToIndex base env st)\<rparr>)"
proof -
  obtain ms err where a: "ms_addAll (map doc_json (documentsToIndex base env st)) (miniSearch route) = (ms, err)"
    by (cases "ms_addAll (map doc_json (documentsToIndex base env st)) (miniSearch route)")
  show ?thesis
  proof (cases err)
    case (Some e)
    then show ?thesis using assms a by (auto simp: indexDocuments_def Let_def)
  next
    case None
    from ms_addAll_success [OF a [unfolded None]]
    have ms: "ms = (miniSearch route)\<lparr>ms_documents := ms_documents (miniSearch route) @
           map doc_json (documentsToIndex base env st)\<rparr>" .
    then have "documentCount ms \<noteq> 0"
      using documentsToIndex_nonempty [of base env st] by (simp add: documentCount_def)
    then show ?thesis using assms a None ms
      by (cases d) (auto simp: indexDocuments_def Let_def)
  qed
qed

lemma GET_index_fresh:
  assumes "crawlLoop R base env (initial_vars base) = Inr st"
  shows "GET_index R base env DiskOk (loaded_module f) =
     (\<lparr>miniSearch = \<lparr>ms_fields = index_fields,
          ms_documents = map doc_json (documentsToIndex base env st)\<rparr>,
       index_file = Parsed (JObj [(''fields'', JArr index_fields),
          (''documents'', JArr (map doc_json (documentsToIndex base env st)))])\<rparr>,
      Indexed (documentsToIndex base env st) (failedUrls st))"
proof -
  let ?ds = "documentsToIndex base env st"
  have dist: "distinct (map d_id ?ds)"
    using crawlLoop_distinct [OF assms] by (rule documentsToIndex_distinct)
  have fresh: "list_all (\<lambda>d. \<not> has_id (new_MiniSearch index_fields) (JStr (d_id d))) ?ds"
    by (simp add: list_all_iff)
  have fields: "\<not> list_ex (\<lambda>f. to_string f = None) (ms_fields (new_MiniSearch index_fields))"
    by (simp add: new_MiniSearch_def index_fields_def)
  have a: "ms_addAll (map doc_json ?ds) (new_MiniSearch index_fields) =
      (\<lparr>ms_fields = index_fields, ms_documents = map doc_json ?ds\<rparr>, None)"
    using ms_addAll_distinct [OF dist fresh fields] by (simp add: new_MiniSearch_def)
  have n: "documentCount \<lparr>ms_fields = index_fields, ms_documents = map doc_json ?ds\<rparr> \<noteq> 0"
    using documentsToIndex_nonempty [of base env st] by (simp add: documentCount_def)
  show ?thesis
    using assms a n
    by (simp add: GET_index_def indexDocuments_def loaded_module_def Let_def snapshot_json_eq)
qed

lemma GET_index_second:
  assumes "GET_index R1 base env1 d1 route0 = (route1, Indexed ds1 fs1)"
  shows "index_file route1 = Parsed (JObj [(''fields'', JArr index_fields),
            (''documents'', JArr (map doc_json ds1))]) \<and>
         GET_index R2 base env2 d2 route1 = (route1, FailedToIndex (DuplicateId (JStr base)))"
proof -
  obtain st1 where l1: "crawlLoop R1 base env1 (initial_vars base) = Inr st1"
    using crawlLoop_Inr by blast
  then have i1: "indexDocuments base env1 d1 st1 route0 = (route1, Indexed ds1 fs1)"
    using assms by (simp add: GET_index_def)
  from indexDocuments_cases [OF i1]
  have ds1: "ds1 = documentsToIndex base env1 st1"
    and snap: "index_file route1 = Parsed (snapshot_json (miniSearch route1) ds1)"
    and ms1: "miniSearch route1 = (miniSearch route0)\<lparr>ms_documents :=
        ms_documents (miniSearch route0) @ map doc_json ds1\<rparr>"
    by auto
  from crawlLoop_first_document [OF l1] ds1 obtain x xs where x: "ds1 = x # xs" "d_id x = base"
    by auto
  have has: "has_id (miniSearch route1) (JStr base)"
    using has_id_member [of x "miniSearch route1"] ms1 x by simp
  obtain st2 where l2: "crawlLoop R2 base env2 (initial_vars base) = Inr st2"
    using crawlLoop_Inr by blast
  from crawlLoop_first_document [OF l2] obtain y ys
    where y: "documentsToIndex base env2 st2 = y # ys" "d_id y = base"
    by auto
  have "ms_addAll (map doc_json (documentsToIndex base env2 st2)) (miniSearch route1) =
      (miniSearch route1, Some (DuplicateId (JStr base)))"
    using ms_addAll_duplicate [of "miniSearch route1" y ys] has y by simp
  then have "GET_index R2 base env2 d2 route1 = (route1, FailedToIndex (DuplicateId (JStr base)))"
    using l2 by (simp add: GET_index_def indexDocuments_def Let_def)
  then show ?thesis using snap by (simp add: snapshot_json_eq)
qed

lemma crawlLoop_unreachable:
  "crawlLoop URL_href ''https://example.com/'' unreachable_site (initial_vars ''https://example.com/'')
     = Inr \<lparr>visited_urls = [''https://example.com/''], toCrawl = [], documents = [],
            failedUrls = [''https://example.com/''], crawlCount = 1,
            events = [Attempt 1, Launch, Wait 1000, Close, Attempt 2, Launch,
                      HttpGet ''https://example.com/'' puppeteer_headers, Close, Wait 500]\<rparr>"
  apply (subst crawlLoop.simps)
  apply (simp add: initial_vars_def maxCrawl_def crawlStep_def crawlPage_unreachable enqueue_def
      Let_def)
  apply (subst crawlLoop.simps)
  apply simp
  done

lemma GET_index_unreachable:
  "GET_index URL_href ''https://example.com/'' unreachable_site DiskOk
       (loaded_module (Unreadable ''ENOENT: no such file or directory''))
     = (first_run_route,
        Indexed [fallbackDocument ''https://example.com/'' ''2026-01-01T00:00:00.000Z'']
          [''https://example.com/''])"
  using GET_index_fresh [OF crawlLoop_unreachable]
  by (simp add: first_run_route_def documentsToIndex_def one_document_snapshot_def
      unreachable_site_def)

lemma extractPage_same: "same_result (extractPage R base url now p) (extractPage R base url now' p)"
  by (simp add: same_result_def extractPage_def Let_def undated_def)

lemma fetchFallback_same:
  "http_get env' = http_get env \<Longrightarrow>
     same_result (fst (fetchFallback R base env url)) (fst (fetchFallback R base env' url))"
  by (auto simp: fetchFallback_def extractPage_same split: http_outcome.splits)
     (simp add: same_result_def)

lemma attemptLoop_same:
  assumes "browse env' = browse env" and "http_get env' = http_get env"
  shows "snd (attemptLoop R base env' url 2 1 False) = snd (attemptLoop R base env url 2 1 False) \<and>
     rel_option same_result (fst (attemptLoop R base env url 2 1 False))
       (fst (attemptLoop R base env' url 2 1 False))"
  using fetchFallback_same [OF assms(2), of R base url]
    extractPage_same [of R base url "clock env url" _ "clock env' url"]
  unfolding attemptLoop_first attemptLoop_second assms(1)
  by (simp split: attempt_outcome.splits)

lemma crawlPage_same:
  assumes "browse env' = browse env" and "http_get env' = http_get env"
  shows "snd (crawlPage R base env' url vis 2) = snd (crawlPage R base env url vis 2) \<and>
     rel_option same_result (fst (crawlPage R base env url vis 2))
       (fst (crawlPage R base env' url vis 2))"
  using attemptLoop_same [OF assms, of R base url]
  by (auto simp: crawlPage_def same_result_def split: prod.splits)

lemma crawlStep_same:
  assumes "browse env' = browse env" and "http_get env' = http_get env"
    and "same_vars st st'" and "crawlStep R base env st = Inr s" and "crawlStep R base env' st' = Inr s'"
  shows "same_vars s s'"
proof -
  let ?url = "last (toCrawl st)"
  obtain res vis ev where c: "crawlPage R base env ?url (visited_urls st) 2 = (res, vis, ev)"
    by (cases "crawlPage R base env ?url (visited_urls st) 2")
  obtain res' vis' ev' where c': "crawlPage R base env' ?url (visited_urls st) 2 = (res', vis', ev')"
    by (cases "crawlPage R base env' ?url (visited_urls st) 2")
  from crawlPage_same [OF assms(1,2), of R base ?url "visited_urls st"] c c'
  have eq: "vis' = vis" "ev' = ev" and rel: "rel_option same_result res res'" by simp_all
  from crawlPage_shape [OF c] obtain doc found where r: "res = Some (doc, found)" by blast
  from crawlPage_shape [OF c'] obtain doc' found' where r': "res' = Some (doc', found')" by blast
  from rel r r' have f: "found' = found" and d: "map_option undated doc = map_option undated doc'"
    by (simp_all add: same_result_def)
  have tc: "toCrawl st' = toCrawl st" "visited_urls st' = visited_urls st"
    using assms(3) by (simp_all add: same_vars_def)
  show ?thesis
    using assms(3,4,5) c c' r r' eq f d tc
    by (cases doc; cases doc') (auto simp: crawlStep_def Let_def same_vars_def)
qed

lemma crawlLoop_same:
  "browse env' = browse env \<Longrightarrow> http_get env' = http_get env \<Longrightarrow> same_vars st st' \<Longrightarrow>
     crawlLoop R base env st = Inr s \<Longrightarrow> crawlLoop R base env' st' = Inr s' \<Longrightarrow> same_vars s s'"
proof (induction R base env st arbitrary: st' rule: crawlLoop.induct)
  case (1 R base env st)
  have cond: "(toCrawl st' \<noteq> [] \<and> crawlCount st' < maxCrawl) =
      (toCrawl st \<noteq> [] \<and> crawlCount st < maxCrawl)"
    using "1.prems"(3) by (simp add: same_vars_def)
  show ?case
  proof (cases "toCrawl st \<noteq> [] \<and> crawlCount st < maxCrawl")
    case True
    obtain t where t: "crawlStep R base env st = Inr t" using crawlStep_Inr by blast
    obtain t' where t': "crawlStep R base env' st' = Inr t'" using crawlStep_Inr by blast
    have l: "crawlLoop R base env t = Inr s"
      using "1.prems"(4) True t by (subst (asm) crawlLoop.simps) simp
    have l': "crawlLoop R base env' t' = Inr s'"
      using "1.prems"(5) True cond t' by (subst (asm) crawlLoop.simps) simp
    have r: "same_vars t t'"
      using crawlStep_same [OF "1.prems"(1,2,3) t t'] .
    show ?thesis using "1.IH" [OF True t "1.prems"(1,2) r l l'] .
  next
    case False
    have "s = st" using "1.prems"(4) False by (subst (asm) crawlLoop.simps) auto
    moreover have "s' = st'" using "1.prems"(5) False cond by (subst (asm) crawlLoop.simps) auto
    ultimately show ?thesis using "1.prems"(3) by simp
  qed
qed

lemma documentsToIndex_same:
  "same_vars st st' \<Longrightarrow>
     map undated (documentsToIndex base env' st') = map undated (documentsToIndex base env st)"
  by (auto simp: same_vars_def documentsToIndex_def fallbackDocument_def undated_def)

lemma same_vars_refl: "same_vars st st"
  by (simp add: same_vars_def)

lemma GET_index_fresh_same:
  assumes "browse env' = browse env" and "http_get env' = http_get env"
  shows "\<exists>ds ds' fs.
     snd (GET_index R base env DiskOk (loaded_module f)) = Indexed ds fs \<and>
     snd (GET_index R base env' DiskOk (loaded_module f')) = Indexed ds' fs \<and>
     ds \<noteq> [] \<and> map undated ds' = map undated ds \<and>
     index_file (fst (GET_index R base env DiskOk (loaded_module f))) =
       Parsed (JObj [(''fields'', JArr index_fields), (''documents'', JArr (map doc_json ds))]) \<and>
     index_file (fst (GET_index R base env' DiskOk (loaded_module f'))) =
       Parsed (JObj [(''fields'', JArr index_fields), (''documents'', JArr (map doc_json ds'))])"
proof -
  obtain st where l: "crawlLoop R base env (initial_vars base) = Inr st"
    using crawlLoop_Inr by blast
  obtain st' where l': "crawlLoop R base env' (initial_vars base) = Inr st'"
    using crawlLoop_Inr by blast
  have sv: "same_vars st st'"
    using crawlLoop_same [OF assms same_vars_refl l l'] .
  then have fs: "failedUrls st' = failedUrls st" by (simp add: same_vars_def)
  show ?thesis
    using GET_index_fresh [OF l, of f] GET_index_fresh [OF l', of f'] fs
      documentsToIndex_same [OF sv, of base env' env] documentsToIndex_nonempty [of base env st]
    by simp
qed

text \<open>
  C8 (as amended). A run of the pipeline in a freshly loaded module succeeds and writes a
  snapshot that depends on the site alone and not on the snapshot that was there: two such
  runs over a site that answers the same way give the same failed URLs and the same
  documents but for their time stamps, hence the same document count. A re-run in the same
  module, which still holds the documents of the first run, adds nothing: \<open>addAll\<close>
  throws \<open>duplicate ID\<close> at the first document, whose id is always the base URL, \<open>GET\<close>
  answers 500 and writes nothing, and the module and the snapshot of the first run, with
  its document count, stay as they were.
\<close>

theorem rerun_indexing:
  "(browse env' = browse env \<and> http_get env' = http_get env \<longrightarrow>
      (\<exists>ds ds' fs.
         snd (GET_index R base env DiskOk (loaded_module f)) = Indexed ds fs \<and>
         snd (GET_index R base env' DiskOk (loaded_module f')) = Indexed ds' fs \<and>
         ds \<noteq> [] \<and> map undated ds' = map undated ds \<and>
         index_file (fst (GET_index R base env DiskOk (loaded_module f))) =
           Parsed (JObj [(''fields'', JArr index_fields), (''documents'', JArr (map doc_json ds))]) \<and>
         index_file (fst (GET_index R base env' DiskOk (loaded_module f'))) =
           Parsed (JObj [(''fields'', JArr index_fields), (''documents'', JArr (map doc_json ds'))]))) \<and>
   (GET_index R1 base env1 d1 route0 = (route1, Indexed ds1 fs1) \<longrightarrow>
      index_file route1 =
        Parsed (JObj [(''fields'', JArr index_fields), (''documents'', JArr (map doc_json ds1))]) \<and>
      GET_index R2 base env2 d2 route1 = (route1, FailedToIndex (DuplicateId (JStr base))))"
  using GET_index_fresh_same [of env' env R base f f']
    GET_index_second [of R1 base env1 d1 route0 route1 ds1 fs1 R2 env2 d2]
  by blast

theorem rerun_indexing_witness:
  "browse later_site = browse unreachable_site \<and>
   http_get later_site = http_get unreachable_site \<and>
   (\<exists>ds ds' fs.
      snd (GET_index URL_href ''https://example.com/'' unreachable_site DiskOk
             (loaded_module (Unreadable ''ENOENT: no such file or directory''))) = Indexed ds fs \<and>
      snd (GET_index URL_href ''https://example.com/'' later_site DiskOk
             (loaded_module (Parsed one_document_snapshot))) = Indexed ds' fs \<and>
      ds \<noteq> [] \<and> map undated ds' = map undated ds) \<and>
   GET_index URL_href ''https://example.com/'' unreachable_site DiskOk
       (loaded_module (Unreadable ''ENOENT: no such file or directory''))
     = (first_run_route,
        Indexed [fallbackDocument ''https://example.com/'' ''2026-01-01T00:00:00.000Z'']
          [''https://example.com/'']) \<and>
   index_file first_run_route = Parsed one_document_snapshot \<and>
   GET_index URL_href ''https://example.com/'' flaky_site DiskOk first_run_route
     = (first_run_route, FailedToIndex (DuplicateId (JStr ''https://example.com/'')))"
proof -
  have e: "browse later_site = browse unreachable_site"
    "http_get later_site = http_get unreachable_site"
    by (simp_all add: later_site_def)
  from rerun_indexing
    [of later_site unreachable_site URL_href "''https://example.com/''"
      "Unreadable ''ENOENT: no such file or directory''" "Parsed one_document_snapshot"
      URL_href unreachable_site DiskOk
      "loaded_module (Unreadable ''ENOENT: no such file or directory'')" first_run_route
      "[fallbackDocument ''https://example.com/'' ''2026-01-01T00:00:00.000Z'']"
      "[''https://example.com/'']" URL_href flaky_site DiskOk]
    e GET_index_unreachable
  have "(\<exists>ds ds' fs.
      snd (GET_index URL_href ''https://example.com/'' unreachable_site DiskOk
             (loaded_module (Unreadable ''ENOENT: no such file or directory''))) = Indexed ds fs \<and>
      snd (GET_index URL_href ''https://example.com/'' later_site DiskOk
             (loaded_module (Parsed one_document_snapshot))) = Indexed ds' fs \<and>
      ds \<noteq> [] \<and> map undated ds' = map undated ds)"
    and "index_file first_run_route = Parsed one_document_snapshot"
    and "GET_index URL_href ''https://example.com/'' flaky_site DiskOk first_run_route
     = (first_run_route, FailedToIndex (DuplicateId (JStr ''https://example.com/'')))"
    by (auto simp: first_run_route_def)
  then show ?thesis using e GET_index_unreachable by blast
qed

text \<open>The claim as written has the second run add the same documents again and produce
  a snapshot; in the same module the second \<open>addAll\<close> throws and the second run answers
  500.\<close>

theorem rerun_indexing_counterexample:
  "ms_addAll [doc_json (fallbackDocument ''https://example.com/'' ''2026-01-01T00:00:00.000Z'')]
       (miniSearch first_run_route)
     = (miniSearch first_run_route, Some (DuplicateId (JStr ''https://example.com/''))) \<and>
   snd (GET_index URL_href ''https://example.com/'' unreachable_site DiskOk
       (fst (GET_index URL_href ''https://example.com/'' unreachable_site DiskOk
          (loaded_module (Unreadable ''ENOENT: no such file or directory'')))))
     = FailedToIndex (DuplicateId (JStr ''https://example.com/'')) \<and>
   index_status (snd (GET_index URL_href ''https://example.com/'' unreachable_site DiskOk
       (fst (GET_index URL_href ''https://example.com/'' unreachable_site DiskOk
          (loaded_module (Unreadable ''ENOENT: no such file or directory'')))))) = 500"
proof -
  have a: "ms_addAll [doc_json (fallbackDocument ''https://example.com/'' ''2026-01-01T00:00:00.000Z'')]
       (miniSearch first_run_route)
     = (miniSearch first_run_route, Some (DuplicateId (JStr ''https://example.com/'')))"
    by (simp add: first_run_route_def ms_add_def has_id_def fallbackDocument_def)
  have b: "GET_index URL_href ''https://example.com/'' unreachable_site DiskOk first_run_route
     = (first_run_route, FailedToIndex (DuplicateId (JStr ''https://example.com/'')))"
    using GET_index_second [OF GET_index_unreachable] by simp
  show ?thesis using a b GET_index_unreachable by simp
qed

text \<open>
  C9. When the crawl gives no document, the list handed to \<open>addAll\<close> is the fallback
  document alone; the list is never empty, \<open>GET\<close> never gives the 500 response of the
  branch \<open>documentCount === 0\<close>, and whenever \<open>GET\<close> changes the snapshot file, the
  snapshot it writes has at least one document.
\<close>

theorem fallback_document_keeps_index_nonempty:
  "documentsToIndex base env (st\<lparr>documents := []\<rparr>) = [fallbackDocument base (clock env base)] \<and>
   documentsToIndex base env st \<noteq> [] \<and>
   snd (GET_index R base env d route) \<noteq> NoDocumentsIndexed500 fs \<and>
   (index_file (fst (GET_index R base env d route)) = index_file route \<or>
    (\<exists>ds. ds \<noteq> [] \<and>
       index_file (fst (GET_index R base env d route)) =
         Parsed (JObj [(''fields'', JArr index_fields), (''documents'', JArr (map doc_json ds))])))"
proof -
  obtain l where l: "crawlLoop R base env (initial_vars base) = Inr l"
    using crawlLoop_Inr by blast
  obtain route' resp where i: "indexDocuments base env d l route = (route', resp)"
    by (cases "indexDocuments base env d l route")
  have g: "GET_index R base env d route = (route', resp)"
    using l i by (simp add: GET_index_def)
  have ne: "documentsToIndex base env l \<noteq> []" by (rule documentsToIndex_nonempty)
  from indexDocuments_cases [OF i]
  have r: "resp \<noteq> NoDocumentsIndexed500 fs"
    and f: "index_file route' = index_file route \<or>
       index_file route' = Parsed (JObj [(''fields'', JArr index_fields),
          (''documents'', JArr (map doc_json (documentsToIndex base env l)))])"
    by (auto simp: snapshot_json_eq)
  show ?thesis using g r f ne by (auto simp: documentsToIndex_def)
qed

end
